theory Spec2Isabelle
  imports Complex_Main "HOL-Library.Multiset" "HOL-Library.Char_ord" "HOL-Library.List_Lexorder"
    "HOL-Library.Word" "HOL-Library.Log_Nat"
begin

section \<open>Errors raised by the Python code\<close>

text \<open>
  Every exception the modelled code can raise is a value of \<open>py_error\<close>; a function that
  can raise returns \<open>py_error + 'a\<close> with \<open>Inl\<close> for the exception.
\<close>

datatype py_error =
    AttributeError string
  | TypeError string
  | ZeroDivisionError
  | OverflowError
  | FileNotFoundError string
  | InvalidArgumentError
  | ValueError string
  | IndexError

section \<open>Dice coefficient and Dice loss (segmentation.py, lines 130-138)\<close>

text \<open>
  A batch of masks is a list (batch axis) of masks, a mask a list of rows of pixel values.
  Pixel values are real numbers: the 32-bit floating-point rounding of TensorFlow is not
  modelled, the arithmetic is exact.

  \<open>layers.Flatten()\<close> keeps the batch axis and flattens the rest.  \<open>tf.reduce_sum\<close>
  without an axis adds up every element.  The element-wise product is taken on tensors of
  one shape; TensorFlow's broadcasting between unequal shapes is outside this model, which
  reports every shape disagreement as \<open>InvalidArgumentError\<close>.
\<close>

type_synonym mask = "real list list"
type_synonym batch = "mask list"

definition Flatten :: "batch \<Rightarrow> real list list" where
  "Flatten t = map concat t"

definition reduce_sum :: "real list list \<Rightarrow> real" where
  "reduce_sum t = sum_list (concat t)"

definition tensor_mul :: "real list list \<Rightarrow> real list list \<Rightarrow> py_error + real list list" where
  "tensor_mul a b =
     (if map length a = map length b
      then Inr (map2 (\<lambda>r s. map2 (\<lambda>p q. p * q) r s) a b)
      else Inl InvalidArgumentError)"

definition smooth_default :: real where
  "smooth_default = 1 / 10 ^ 15"

definition dice_coef :: "batch \<Rightarrow> batch \<Rightarrow> real \<Rightarrow> py_error + real" where
  "dice_coef y_true y_pred smooth =
     (let y_true' = Flatten y_true;
          y_pred' = Flatten y_pred
      in case tensor_mul y_true' y_pred' of
           Inl e \<Rightarrow> Inl e
         | Inr prd \<Rightarrow>
             (let intersection = reduce_sum prd
              in Inr ((2 * intersection + smooth)
                      / (reduce_sum y_true' + reduce_sum y_pred' + smooth))))"

definition dice_loss :: "batch \<Rightarrow> batch \<Rightarrow> py_error + real" where
  "dice_loss y_true y_pred =
     (case dice_coef y_true y_pred smooth_default of
        Inl e \<Rightarrow> Inl e
      | Inr d \<Rightarrow> Inr (1 - d))"

text \<open>The vocabulary of the claim: binary, non-empty and disjoint masks.\<close>

definition pixels :: "batch \<Rightarrow> real list" where
  "pixels t = concat (Flatten t)"

definition binary :: "batch \<Rightarrow> bool" where
  "binary t = (\<forall>p \<in> set (pixels t). p = 0 \<or> p = 1)"

definition non_empty :: "batch \<Rightarrow> bool" where
  "non_empty t = (\<exists>p \<in> set (pixels t). p = 1)"

definition same_shape :: "batch \<Rightarrow> batch \<Rightarrow> bool" where
  "same_shape a b = (map length (Flatten a) = map length (Flatten b))"

definition disjoint :: "batch \<Rightarrow> batch \<Rightarrow> bool" where
  "disjoint a b = (\<forall>(p, q) \<in> set (zip (pixels a) (pixels b)). \<not> (p = 1 \<and> q = 1))"

section \<open>Python values, Keras layers and objects\<close>

text \<open>
  The values the modelled code stores in attributes and passes to layer constructors.
  \<open>RandomNormal shape\<close> stands for a tensor drawn by \<open>tf.random.normal(shape)\<close>; the
  drawn numbers are not modelled.  A \<open>Sequential\<close> model is its optional name and the
  layers added to it, in order.  Layer constructors are recorded symbolically with the
  arguments the source passes; the framework's own validation of these arguments is not
  modelled.
\<close>

datatype pyval =
    NoneV
  | IntV int
  | StrV string
  | TupleV "pyval list"
  | RandomNormal "pyval list"
  | Sequential "string option" "layer list"
and layer =
    InputLayer pyval
  | Conv2D pyval pyval string
  | Conv2DTranspose pyval pyval
  | Activation string
  | FlattenLayer
  | Dense pyval
  | Reshape pyval pyval
  | BatchNormalization real
  | UpSampling2D pyval
  | LeakyReLU real
  | Dropout real
  | AveragePooling2D
  | Concatenate

text \<open>
  An object is the dictionary of its instance attributes.  Reading an attribute that the
  instance does not have raises \<open>AttributeError\<close> (neither \<open>ReGAN\<close> nor its base class
  defines \<open>img_size\<close>, \<open>noise_dim\<close>, \<open>discriminator\<close>, \<open>gen_loss\<close>, \<open>disc_loss\<close>,
  \<open>gen_optimizer\<close> or \<open>disc_optimizer\<close> at class level).
\<close>

type_synonym obj = "string \<rightharpoonup> pyval"

definition getattr :: "obj \<Rightarrow> string \<Rightarrow> py_error + pyval" where
  "getattr self n = (case self n of None \<Rightarrow> Inl (AttributeError n) | Some v \<Rightarrow> Inr v)"

definition bind :: "py_error + 'a \<Rightarrow> ('a \<Rightarrow> py_error + 'b) \<Rightarrow> py_error + 'b" where
  "bind m f = (case m of Inl e \<Rightarrow> Inl e | Inr x \<Rightarrow> f x)"

section \<open>The generative model (gan.py): network assembly\<close>

text \<open>\<open>ReGAN._create_encoder\<close>, lines 34-51.\<close>

fun encoder_blocks :: "obj \<Rightarrow> int list \<Rightarrow> layer list \<Rightarrow> py_error + layer list" where
  "encoder_blocks self [] ls = Inr ls"
| "encoder_blocks self (f # fs) ls =
     (case getattr self ''kernel_size'' of
        Inl e \<Rightarrow> Inl e
      | Inr k \<Rightarrow> encoder_blocks self fs (ls @ [Conv2D (IntV f) k ''same'', Activation ''relu'']))"

definition create_encoder :: "obj \<Rightarrow> py_error + pyval" where
  "create_encoder self =
     bind (getattr self ''img_size'') (\<lambda>h.
     bind (getattr self ''img_size'') (\<lambda>w.
     bind (getattr self ''channels'') (\<lambda>c.
     bind (encoder_blocks self [16, 32, 64, 128] [InputLayer (TupleV [h, w, c])]) (\<lambda>ls.
     bind (getattr self ''latent_dim'') (\<lambda>d.
     Inr (Sequential (Some ''Encoder'') (ls @ [FlattenLayer, Dense d])))))))"

text \<open>\<open>ReGAN._create_generator\<close>, lines 53-75.\<close>

definition generator_block :: "int \<Rightarrow> layer list" where
  "generator_block f =
     [Conv2D (IntV f) (IntV 3) ''same'', BatchNormalization (7 / 10), Activation ''relu'',
      UpSampling2D (TupleV [IntV 2, IntV 2])]"

definition create_generator :: "obj \<Rightarrow> py_error + pyval" where
  "create_generator self =
     bind (getattr self ''noise_dim'') (\<lambda>n1.
     bind (getattr self ''noise_dim'') (\<lambda>n2.
     (let ls0 = [Reshape (TupleV [IntV 1, IntV 1, n1]) (TupleV [n2]),
                 Conv2DTranspose (IntV 512) (IntV 4), Activation ''relu''];
          filters = [4, 8, 16, 32, 64, 128, 256];
          ls1 = ls0 @ concat (map generator_block (rev filters))
      in bind (getattr self ''channels'') (\<lambda>c.
         Inr (Sequential None (ls1 @ [Conv2D c (IntV 3) ''same'', Activation ''sigmoid'']))))))"

text \<open>\<open>ReGAN._create_encoder_discriminator\<close>, lines 77-81: the body is \<open>pass\<close>.\<close>

definition create_encoder_discriminator :: "obj \<Rightarrow> py_error + pyval" where
  "create_encoder_discriminator self = Inr NoneV"

text \<open>\<open>ReGAN._create_image_discriminator\<close>, lines 83-105.\<close>

definition discriminator_block :: "int \<Rightarrow> layer list" where
  "discriminator_block f =
     [Conv2D (IntV f) (IntV 3) ''same'', BatchNormalization (7 / 10), LeakyReLU (2 / 10),
      Dropout (25 / 100), AveragePooling2D]"

definition create_image_discriminator :: "obj \<Rightarrow> py_error + pyval" where
  "create_image_discriminator self =
     bind (getattr self ''img_size'') (\<lambda>h.
     bind (getattr self ''img_size'') (\<lambda>w.
     bind (getattr self ''channels'') (\<lambda>c.
     (let ls0 = [InputLayer (TupleV [h, w, c])];
          filters = [4, 8, 16, 32, 64, 128, 256];
          ls1 = ls0 @ concat (map discriminator_block filters)
      in Inr (Sequential None
               (ls1 @ [FlattenLayer, Dense (IntV 128), LeakyReLU (2 / 10), Dense (IntV 1)]))))))"

text \<open>
  \<open>ReGAN.__init__\<close>, lines 10-32.  The parameters are the five named arguments and the
  dictionary \<open>kwargs\<close> of the remaining keyword arguments.  The call
  \<open>super().__init__(name="ReGAN", **kwargs)\<close> is Python's: a key \<open>name\<close> in
  \<open>kwargs\<close> is a second value for the keyword \<open>name\<close> and raises \<open>TypeError\<close> before
  the base class runs.  The base-class initialiser itself belongs to the framework and is
  the parameter \<open>Model_init\<close>: it returns the attributes of the fresh object or raises.
\<close>

definition ReGAN_init ::
  "((string \<times> pyval) list \<Rightarrow> py_error + obj) \<Rightarrow>
   pyval \<Rightarrow> pyval \<Rightarrow> pyval \<Rightarrow> pyval \<Rightarrow> pyval \<Rightarrow> (string \<times> pyval) list \<Rightarrow> py_error + obj" where
  "ReGAN_init Model_init img_size channels latent_dim batch_size kernel_size kwargs =
     (if ''name'' \<in> fst ` set kwargs
      then Inl (TypeError ''got multiple values for keyword argument name'')
      else
        bind (Model_init ((''name'', StrV ''ReGAN'') # kwargs)) (\<lambda>self0.
        (let self1 = self0(''image_size'' \<mapsto> img_size);
             self2 = self1(''channels'' \<mapsto> channels);
             self3 = self2(''latent_dim'' \<mapsto> latent_dim);
             self4 = self3(''batch_size'' \<mapsto> batch_size);
             self5 = self4(''kernel_size'' \<mapsto> kernel_size)
         in bind (create_encoder self5) (\<lambda>enc.
            (let self6 = self5(''encoder'' \<mapsto> enc)
             in bind (create_generator self6) (\<lambda>gen.
                (let self7 = self6(''generator'' \<mapsto> gen)
                 in bind (create_encoder_discriminator self7) (\<lambda>ed.
                    (let self8 = self7(''encoder_discriminator'' \<mapsto> ed)
                     in bind (create_image_discriminator self8) (\<lambda>idisc.
                        Inr (self8(''image_discriminator'' \<mapsto> idisc))))))))))))"

section \<open>The generative model (gan.py): training loop\<close>

text \<open>
  \<open>ReGAN.train_step\<close>, lines 139-157.  The attributes are read in the order of the body.
  What the framework then computes (the two losses, and the update of the generator's and
  the discriminator's weights) is the parameter \<open>fw\<close>, a function of the object, the
  current weights \<open>w\<close> and the batch.
\<close>

definition train_step ::
  "obj \<Rightarrow> (obj \<Rightarrow> 'w \<Rightarrow> 'a list \<Rightarrow> py_error + (real \<times> real) \<times> 'w) \<Rightarrow>
   'w \<Rightarrow> 'a list \<Rightarrow> py_error + (real \<times> real) \<times> 'w" where
  "train_step self fw w images =
     bind (getattr self ''batch_size'') (\<lambda>_.
     bind (getattr self ''noise_dim'') (\<lambda>_.
     bind (getattr self ''generator'') (\<lambda>_.
     bind (getattr self ''discriminator'') (\<lambda>_.
     bind (getattr self ''gen_loss'') (\<lambda>_.
     bind (getattr self ''disc_loss'') (\<lambda>_.
     bind (getattr self ''gen_optimizer'') (\<lambda>_.
     bind (getattr self ''disc_optimizer'') (\<lambda>_.
     fw self w images))))))))"

text \<open>\<open>ReGAN.call\<close>, lines 159-160: the body is \<open>pass\<close>, the result is \<open>None\<close>.\<close>

definition call :: "obj \<Rightarrow> pyval \<Rightarrow> pyval" where
  "call self inputs = NoneV"

text \<open>
  The state of one epoch of \<open>ReGAN.train\<close> (lines 113-123): the local variables and the
  weights that \<open>train_step\<close> updates.
\<close>

record ('a, 'w) epoch_state =
  next_batch :: "'a list"
  min_gen_loss :: real
  min_disc_loss :: real
  weights :: 'w

definition epoch_start :: "'w \<Rightarrow> ('a, 'w) epoch_state" where
  "epoch_start w =
     \<lparr>next_batch = [], min_gen_loss = 999999, min_disc_loss = 999999, weights = w\<rparr>"

text \<open>
  The loop \<open>for i in range(len(dataset))\<close>, from index \<open>i\<close> on; the list argument is
  the part of the dataset from index \<open>i\<close>.  \<open>i % batch_size\<close> is Python's: it raises
  on a zero divisor, and for integers agrees with \<open>mod\<close> on \<open>int\<close>.
\<close>

fun batch_loop ::
  "('w \<Rightarrow> 'a list \<Rightarrow> py_error + (real \<times> real) \<times> 'w) \<Rightarrow> int \<Rightarrow> nat \<Rightarrow> 'a list \<Rightarrow>
   ('a, 'w) epoch_state \<Rightarrow> py_error + ('a, 'w) epoch_state" where
  "batch_loop step batch_size i [] s = Inr s"
| "batch_loop step batch_size i (x # xs) s =
     (let nb = next_batch s @ [x]
      in if batch_size = 0 then Inl ZeroDivisionError
         else if int i mod batch_size = 0 then
           (case step (weights s) nb of
              Inl e \<Rightarrow> Inl e
            | Inr ((gen_loss, disc_loss), w') \<Rightarrow>
                batch_loop step batch_size (Suc i) xs
                  (s\<lparr>next_batch := [],
                     min_gen_loss := min (min_gen_loss s) gen_loss,
                     min_disc_loss := min (min_disc_loss s) disc_loss,
                     weights := w'\<rparr>))
         else batch_loop step batch_size (Suc i) xs (s\<lparr>next_batch := nb\<rparr>))"

text \<open>
  The floats of Python are IEEE 754 binary64 numbers, here the rational numbers they
  denote.  \<open>nearest_double p q\<close> is the binary64 number nearest to \<open>p / q\<close> for positive
  \<open>p\<close> and \<open>q\<close>, ties to the even significand: \<open>binary_exponent\<close> is the exponent \<open>e\<close>
  with \<open>2 ^ e \<le> p / q < 2 ^ (e + 1)\<close>, the spacing of the binary64 numbers there is
  \<open>2 ^ (e - 52)\<close>, and \<open>2 ^ (- 1074)\<close> in the subnormal range.  \<open>round_double\<close> rounds a
  rational number of either sign.
\<close>

definition pow2 :: "int \<Rightarrow> rat" where
  "pow2 k = (if 0 \<le> k then 2 ^ nat k else 1 / 2 ^ nat (- k))"

definition round_half_even :: "rat \<Rightarrow> int" where
  "round_half_even x =
     (let f = \<lfloor>x\<rfloor>; d = x - of_int f
      in if d < 1 / 2 then f else if 1 / 2 < d then f + 1 else if even f then f else f + 1)"

definition binary_exponent :: "nat \<Rightarrow> nat \<Rightarrow> int" where
  "binary_exponent p q =
     (let e = int (floorlog 2 p) - int (floorlog 2 q)
      in if pow2 e * of_nat q \<le> of_nat p then e else e - 1)"

definition nearest_double :: "nat \<Rightarrow> nat \<Rightarrow> rat" where
  "nearest_double p q =
     (let u = max (binary_exponent p q - 52) (- 1074)
      in of_int (round_half_even (of_nat p / (of_nat q * pow2 u))) * pow2 u)"

definition round_double :: "rat \<Rightarrow> rat" where
  "round_double x =
     (if x = 0 then 0
      else (let (p, q) = quotient_of \<bar>x\<bar>; m = nearest_double (nat p) (nat q)
            in if 0 < x then m else - m))"

text \<open>
  Python's true division \<open>a / b\<close> of two integers: the correctly rounded quotient,
  \<open>ZeroDivisionError\<close> on a zero divisor, \<open>OverflowError\<close> when the quotient is too
  large for a float.  The conversion of an integer to a float, which \<open>%\<close> applies to an
  integer operand, rounds and overflows in the same way.
\<close>

definition int_truediv :: "int \<Rightarrow> int \<Rightarrow> py_error + rat" where
  "int_truediv a b =
     (if b = 0 then Inl ZeroDivisionError
      else if a = 0 then Inr 0
      else (let m = nearest_double (nat \<bar>a\<bar>) (nat \<bar>b\<bar>)
            in if 2 ^ 1024 \<le> m then Inl OverflowError
               else Inr (if (a < 0) = (b < 0) then m else - m)))"

definition float_of_int :: "int \<Rightarrow> py_error + rat" where
  "float_of_int a = int_truediv a 1"

text \<open>
  Python's \<open>%\<close> on floats.  It raises on a zero divisor.  Otherwise it takes C's
  \<open>fmod\<close>, the remainder of the division truncated towards zero, which is computed
  without rounding; when this remainder is not zero and its sign differs from the
  divisor's, the divisor is added to it, in floating point.
\<close>

definition c_fmod :: "rat \<Rightarrow> rat \<Rightarrow> rat" where
  "c_fmod x y = x - y * of_int (if 0 \<le> x / y then \<lfloor>x / y\<rfloor> else \<lceil>x / y\<rceil>)"

definition float_mod :: "rat \<Rightarrow> rat \<Rightarrow> py_error + rat" where
  "float_mod x y =
     (if y = 0 then Inl ZeroDivisionError
      else (let m = c_fmod x y
            in Inr (if m \<noteq> 0 \<and> ((y < 0) \<noteq> (m < 0)) then round_double (m + y) else m)))"

text \<open>
  Lines 127-128 of \<open>ReGAN.train\<close>: \<open>if epoch % (epochs / 10) == 0\<close>, the result of
  \<open>self.call\<close> on normally distributed noise of shape \<open>[16, self.noise_dim]\<close> is appended
  to \<open>generated_images\<close>.
\<close>

definition visualize :: "obj \<Rightarrow> int \<Rightarrow> int \<Rightarrow> pyval list \<Rightarrow> py_error + pyval list" where
  "visualize self epochs epoch generated_images =
     bind (int_truediv epochs 10) (\<lambda>tenth.
     bind (float_of_int epoch) (\<lambda>e.
     bind (float_mod e tenth) (\<lambda>r.
       if r = 0 then
         bind (getattr self ''noise_dim'') (\<lambda>nd.
           Inr (generated_images @ [call self (RandomNormal [IntV 16, nd])]))
       else Inr generated_images)))"

text \<open>The loop \<open>for epoch in range(epochs)\<close> of \<open>ReGAN.train\<close>, lines 110-135.\<close>

fun epoch_loop ::
  "obj \<Rightarrow> (obj \<Rightarrow> 'w \<Rightarrow> 'a list \<Rightarrow> py_error + (real \<times> real) \<times> 'w) \<Rightarrow> 'a list \<Rightarrow> int \<Rightarrow> int \<Rightarrow>
   int list \<Rightarrow> 'w \<Rightarrow> pyval list \<Rightarrow> py_error + pyval list \<times> 'w" where
  "epoch_loop self fw dataset epochs batch_size [] w generated_images =
     Inr (generated_images, w)"
| "epoch_loop self fw dataset epochs batch_size (epoch # rest) w generated_images =
     (case batch_loop (train_step self fw) batch_size 0 dataset (epoch_start w) of
        Inl e \<Rightarrow> Inl e
      | Inr s \<Rightarrow>
          (case visualize self epochs epoch generated_images of
             Inl e \<Rightarrow> Inl e
           | Inr generated_images' \<Rightarrow>
               epoch_loop self fw dataset epochs batch_size rest (weights s)
                 generated_images'))"

definition train ::
  "obj \<Rightarrow> (obj \<Rightarrow> 'w \<Rightarrow> 'a list \<Rightarrow> py_error + (real \<times> real) \<times> 'w) \<Rightarrow> 'w \<Rightarrow>
   'a list \<Rightarrow> int \<Rightarrow> int \<Rightarrow> py_error + pyval list \<times> 'w" where
  "train self fw w dataset epochs batch_size =
     epoch_loop self fw dataset epochs batch_size (map int [0..<nat epochs]) w []"

section \<open>The training loop, batch by batch\<close>

text \<open>
  The batches of one epoch in the words of the specification: the first batch is the
  single sample of index 0; the samples after it are cut into consecutive batches of
  exactly \<open>n\<close> samples; what is left at the end, fewer than \<open>n\<close> samples, is discarded.
\<close>

definition full_batches :: "nat \<Rightarrow> 'a list \<Rightarrow> 'a list list" where
  "full_batches n xs = map (\<lambda>k. take n (drop (k * n) xs)) [0..<length xs div n]"

definition batches_of_epoch :: "nat \<Rightarrow> 'a list \<Rightarrow> 'a list list" where
  "batches_of_epoch n dataset =
     (case dataset of [] \<Rightarrow> [] | d # ds \<Rightarrow> [d] # full_batches n ds)"

definition discarded :: "nat \<Rightarrow> 'a list \<Rightarrow> 'a list" where
  "discarded n dataset = drop (length (concat (batches_of_epoch n dataset))) dataset"

text \<open>
  One gradient step per batch, in order: each step gets the weights the step before left,
  the minima of the two losses are kept, and the first step that raises ends the run.
\<close>

fun steps_on ::
  "('w \<Rightarrow> 'a list \<Rightarrow> py_error + (real \<times> real) \<times> 'w) \<Rightarrow> 'a list list \<Rightarrow> real \<times> real \<times> 'w \<Rightarrow>
   py_error + real \<times> real \<times> 'w" where
  "steps_on step [] acc = Inr acc"
| "steps_on step (b # bs) (g, d, w) =
     (case step w b of
        Inl e \<Rightarrow> Inl e
      | Inr ((gen_loss, disc_loss), w') \<Rightarrow> steps_on step bs (min g gen_loss, min d disc_loss, w'))"

text \<open>
  The state in which an epoch ends after the steps on the full batches of \<open>ys\<close>, from the
  outcome \<open>r\<close> of these steps.
\<close>

definition epoch_result ::
  "nat \<Rightarrow> 'a list \<Rightarrow> py_error + real \<times> real \<times> 'w \<Rightarrow> py_error + ('a, 'w) epoch_state" where
  "epoch_result n ys r =
     (case r of
        Inl e \<Rightarrow> Inl e
      | Inr (g, d, w') \<Rightarrow>
          Inr \<lparr>next_batch = drop (length (concat (full_batches n ys))) ys,
               min_gen_loss = g, min_disc_loss = d, weights = w'\<rparr>)"

text \<open>
  Training by batches: every epoch takes the steps of \<open>train_step\<close> on
  \<open>batches_of_epoch\<close>, starting from the weights of the epoch before, and then the
  visualization of lines 127-128.
\<close>

fun epochs_by_batches ::
  "obj \<Rightarrow> (obj \<Rightarrow> 'w \<Rightarrow> 'a list \<Rightarrow> py_error + (real \<times> real) \<times> 'w) \<Rightarrow> 'a list \<Rightarrow> int \<Rightarrow> nat \<Rightarrow>
   int list \<Rightarrow> 'w \<Rightarrow> pyval list \<Rightarrow> py_error + pyval list \<times> 'w" where
  "epochs_by_batches self fw dataset epochs n [] w generated_images =
     Inr (generated_images, w)"
| "epochs_by_batches self fw dataset epochs n (epoch # rest) w generated_images =
     (case steps_on (train_step self fw) (batches_of_epoch n dataset) (999999, 999999, w) of
        Inl e \<Rightarrow> Inl e
      | Inr (g, d, w') \<Rightarrow>
          (case visualize self epochs epoch generated_images of
             Inl e \<Rightarrow> Inl e
           | Inr generated_images' \<Rightarrow>
               epochs_by_batches self fw dataset epochs n rest w' generated_images'))"

definition train_by_batches ::
  "obj \<Rightarrow> (obj \<Rightarrow> 'w \<Rightarrow> 'a list \<Rightarrow> py_error + (real \<times> real) \<times> 'w) \<Rightarrow> 'w \<Rightarrow>
   'a list \<Rightarrow> int \<Rightarrow> nat \<Rightarrow> py_error + pyval list \<times> 'w" where
  "train_by_batches self fw w dataset epochs n =
     epochs_by_batches self fw dataset epochs n (map int [0..<nat epochs]) w []"

section \<open>Inputs used in evaluations of the generative model\<close>

text \<open>
  A base-class initialiser that accepts every keyword argument and returns an object without
  attributes, and the attributes \<open>ReGAN.__init__\<close> assigns from its default arguments
  before it calls \<open>_create_encoder\<close>.
\<close>

definition base_init_accepting :: "(string \<times> pyval) list \<Rightarrow> py_error + obj" where
  "base_init_accepting kwargs = Inr Map.empty"

definition default_attrs :: obj where
  "default_attrs =
     [''image_size'' \<mapsto> IntV 512, ''channels'' \<mapsto> IntV 1, ''latent_dim'' \<mapsto> IntV 4096,
      ''batch_size'' \<mapsto> IntV 128, ''kernel_size'' \<mapsto> IntV 5]"

text \<open>
  An object on which \<open>train_step\<close> finds every attribute it reads, and a framework step
  that records the batch in the weights and returns the losses 0.
\<close>

definition completed_attrs :: obj where
  "completed_attrs =
     default_attrs
       (''noise_dim'' \<mapsto> IntV 100, ''generator'' \<mapsto> Sequential None [],
        ''discriminator'' \<mapsto> Sequential None [], ''gen_loss'' \<mapsto> StrV ''gen_loss'',
        ''disc_loss'' \<mapsto> StrV ''disc_loss'', ''gen_optimizer'' \<mapsto> StrV ''Adam'',
        ''disc_optimizer'' \<mapsto> StrV ''Adam'')"

definition recording_step ::
  "obj \<Rightarrow> 'a list list \<Rightarrow> 'a list \<Rightarrow> py_error + (real \<times> real) \<times> 'a list list" where
  "recording_step self w images = Inr ((0, 0), w @ [images])"

section \<open>The segmentation network (segmentation.py): assembly\<close>

definition IMG_WIDTH :: nat where
  "IMG_WIDTH = 512"

definition IMG_HEIGHT :: nat where
  "IMG_HEIGHT = 512"

text \<open>
  A layer of a functional Keras model, as far as the code looks at it: its name, its
  \<open>trainable\<close> flag and the shape (height, width, channels) of its output.  A symbolic
  tensor is the output of such a layer, or a layer constructor applied to tensors.
\<close>

record keras_layer =
  lname :: string
  trainable :: bool
  out_shape :: "nat \<times> nat \<times> nat"

datatype tensor =
    LayerOutput keras_layer
  | Apply layer "tensor list"

text \<open>\<open>Model.get_layer(name)\<close>: the first layer of that name, \<open>ValueError\<close> if there is none.\<close>

definition get_layer :: "keras_layer list \<Rightarrow> string \<Rightarrow> py_error + keras_layer" where
  "get_layer ls n =
     (case find (\<lambda>l. lname l = n) ls of
        None \<Rightarrow> Inl (ValueError ''No such layer'')
      | Some l \<Rightarrow> Inr l)"

text \<open>
  Subscription of a Python list by an integer: \<open>xs[i]\<close> for \<open>0 \<le> i < len(xs)\<close>,
  \<open>xs[len(xs) + i]\<close> for \<open>-len(xs) \<le> i < 0\<close>, and \<open>IndexError\<close> otherwise.
\<close>

definition py_index :: "'a list \<Rightarrow> int \<Rightarrow> py_error + 'a" where
  "py_index xs i =
     (if 0 \<le> i \<and> i < int (length xs) then Inr (xs ! nat i)
      else if i < 0 \<and> - int (length xs) \<le> i then Inr (xs ! nat (int (length xs) + i))
      else Inl IndexError)"

text \<open>
  The optimizer, loss and metrics given to \<open>Model.compile\<close>.  The loss and a custom
  metric are the functions themselves.
\<close>

datatype optimizer = Nadam real

datatype metric =
    Custom "batch \<Rightarrow> batch \<Rightarrow> py_error + real"
  | Recall
  | Precision

record compile_config =
  optimizer :: optimizer
  loss :: "batch \<Rightarrow> batch \<Rightarrow> py_error + real"
  metrics :: "metric list"

text \<open>
  A Keras model: the network (for \<open>_create_model\<close> the symbolic graph, for a reloaded
  model its forward function) and the configuration attached by \<open>compile\<close>, if any.
\<close>

record 'n keras_model =
  net :: 'n
  compiled :: "compile_config option"

record graph =
  graph_name :: string
  graph_inputs :: tensor
  graph_output :: tensor

definition compile :: "'n keras_model \<Rightarrow> compile_config \<Rightarrow> 'n keras_model" where
  "compile m cfg = m\<lparr>compiled := Some cfg\<rparr>"

text \<open>
  The body of the loop of \<open>_create_model\<close>, lines 106-115; \<open>f1\<close> and \<open>f2\<close> are the
  two values of \<open>f[-i]\<close>.  \<open>BatchNormalization()\<close> leaves the momentum at the framework's
  default, 0.99.
\<close>

definition conv_bn_relu :: "int \<Rightarrow> tensor \<Rightarrow> tensor" where
  "conv_bn_relu fi x =
     Apply (Activation ''relu'')
       [Apply (BatchNormalization (99 / 100))
         [Apply (Conv2D (IntV fi) (TupleV [IntV 3, IntV 3]) ''same'') [x]]]"

definition decoder_stage :: "tensor \<Rightarrow> tensor \<Rightarrow> int \<Rightarrow> int \<Rightarrow> tensor" where
  "decoder_stage x x_skip f1 f2 =
     (let x1 = Apply (UpSampling2D (TupleV [IntV 2, IntV 2])) [x];
          x2 = Apply Concatenate [x1, x_skip];
          x3 = conv_bn_relu f1 x2
      in conv_bn_relu f2 x3)"

text \<open>
  The loop \<open>for i in range(1, len(skip_connection_names) + 1)\<close>, lines 104-115; the list
  argument holds the values of \<open>i\<close> still to come.
\<close>

fun decoder_loop ::
  "keras_layer list \<Rightarrow> string list \<Rightarrow> int list \<Rightarrow> int list \<Rightarrow> tensor \<Rightarrow> py_error + tensor" where
  "decoder_loop encoder skip_connection_names f [] x = Inr x"
| "decoder_loop encoder skip_connection_names f (i # rest) x =
     (case py_index skip_connection_names (- i) of
        Inl e \<Rightarrow> Inl e
      | Inr n \<Rightarrow>
          (case get_layer encoder n of
             Inl e \<Rightarrow> Inl e
           | Inr l \<Rightarrow>
               (case py_index f (- i) of
                  Inl e \<Rightarrow> Inl e
                | Inr f1 \<Rightarrow>
                    (case py_index f (- i) of
                       Inl e \<Rightarrow> Inl e
                     | Inr f2 \<Rightarrow>
                         decoder_loop encoder skip_connection_names f rest
                           (decoder_stage x (LayerOutput l) f1 f2)))))"

text \<open>
  \<open>_create_model\<close>, lines 93-127.  \<open>MobileNetV2_layers\<close> is the parameter: the layers
  that \<open>tf.keras.applications.MobileNetV2(input_tensor=inputs, include_top=False,
  weights="imagenet")\<close> builds on the input tensor, as the framework returns them.  The
  encoder's layers are the input layer followed by these.  The code never assigns a
  \<open>trainable\<close> flag.
\<close>

definition create_model :: "keras_layer list \<Rightarrow> py_error + graph keras_model" where
  "create_model MobileNetV2_layers =
     (let inputs = \<lparr>lname = ''input_image'', trainable = True,
                     out_shape = (IMG_WIDTH, IMG_HEIGHT, 3)\<rparr>;
          encoder = inputs # MobileNetV2_layers;
          skip_connection_names =
            [''input_image'', ''block_1_expand_relu'', ''block_3_expand_relu'',
             ''block_6_expand_relu'']
      in bind (get_layer encoder ''block_13_expand_relu'') (\<lambda>l13.
         (let encoder_output = LayerOutput l13;
              f = [16, 32, 48, 64, 128]
          in bind (decoder_loop encoder skip_connection_names f
                     (map int [1..<length skip_connection_names + 1]) encoder_output) (\<lambda>x.
             (let x1 = Apply (Conv2D (IntV 1) (TupleV [IntV 1, IntV 1]) ''same'') [x];
                  x2 = Apply (Activation ''sigmoid'') [x1];
                  unet = \<lparr>net = \<lparr>graph_name = ''U-Net'', graph_inputs = LayerOutput inputs,
                                  graph_output = x2\<rparr>,
                          compiled = None\<rparr>
              in Inr (compile unet
                        \<lparr>optimizer = Nadam (1 / 10 ^ 4), loss = dice_loss,
                         metrics = [Custom (\<lambda>y_true y_pred. dice_coef y_true y_pred smooth_default),
                                    Recall, Precision]\<rparr>))))))"


definition upsampling_size :: "pyval \<Rightarrow> (nat \<times> nat) option" where
  "upsampling_size sz =
     (case sz of
        TupleV ps \<Rightarrow>
          (case ps of
             [p, q] \<Rightarrow>
               (case p of
                  IntV a \<Rightarrow> (case q of IntV b \<Rightarrow> Some (nat a, nat b) | _ \<Rightarrow> None)
                | _ \<Rightarrow> None)
           | _ \<Rightarrow> None)
      | _ \<Rightarrow> None)"

definition one_input :: "(nat \<times> nat \<times> nat) option list \<Rightarrow> (nat \<times> nat \<times> nat) option" where
  "one_input ss = (case ss of [s] \<Rightarrow> s | _ \<Rightarrow> None)"

definition layer_shape ::
  "layer \<Rightarrow> (nat \<times> nat \<times> nat) option list \<Rightarrow> (nat \<times> nat \<times> nat) option" where
  "layer_shape ly ss =
     (case ly of
        UpSampling2D sz \<Rightarrow>
          (case upsampling_size sz of
             None \<Rightarrow> None
           | Some (a, b) \<Rightarrow>
               (case one_input ss of
                  None \<Rightarrow> None
                | Some (h, w, c) \<Rightarrow> Some (a * h, b * w, c)))
      | Concatenate \<Rightarrow>
          (case ss of
             [s, t] \<Rightarrow>
               (case s of
                  None \<Rightarrow> None
                | Some (h, w, c) \<Rightarrow>
                    (case t of
                       None \<Rightarrow> None
                     | Some (h', w', c') \<Rightarrow>
                         if h = h' \<and> w = w' then Some (h, w, c + c') else None))
           | _ \<Rightarrow> None)
      | Conv2D filters k padding \<Rightarrow>
          (case filters of
             IntV n \<Rightarrow>
               (case one_input ss of
                  None \<Rightarrow> None
                | Some (h, w, c) \<Rightarrow> if padding = ''same'' then Some (h, w, nat n) else None)
           | _ \<Rightarrow> None)
      | BatchNormalization m \<Rightarrow> one_input ss
      | Activation a \<Rightarrow> one_input ss
      | _ \<Rightarrow> None)"

fun shape_of :: "tensor \<Rightarrow> (nat \<times> nat \<times> nat) option" where
  "shape_of (LayerOutput l) = Some (out_shape l)"
| "shape_of (Apply ly xs) = layer_shape ly (map shape_of xs)"

text \<open>
  The layers of MobileNetV2 that \<open>_create_model\<close> refers to, as Keras builds them for a
  512 x 512 x 3 input: trainable, which is the default of every Keras layer.
\<close>

definition MobileNetV2_example :: "keras_layer list" where
  "MobileNetV2_example =
     [\<lparr>lname = ''block_1_expand_relu'', trainable = True, out_shape = (256, 256, 96)\<rparr>,
      \<lparr>lname = ''block_3_expand_relu'', trainable = True, out_shape = (128, 128, 144)\<rparr>,
      \<lparr>lname = ''block_6_expand_relu'', trainable = True, out_shape = (64, 64, 192)\<rparr>,
      \<lparr>lname = ''block_13_expand_relu'', trainable = True, out_shape = (32, 32, 576)\<rparr>]"













section \<open>The segmentation network (segmentation.py): inference\<close>

text \<open>
  \<open>tf.keras.models.load_model(path, compile=False)\<close>: the saved models are a map from
  paths to forward functions; the loaded model has no compile configuration.
  \<open>Model.predict(images)\<close> is batched forward inference: the forward function on every
  image of the batch.  Both belong to the framework.
\<close>

definition load_model_uncompiled ::
  "(string \<rightharpoonup> ('i \<Rightarrow> 'p)) \<Rightarrow> string \<Rightarrow> py_error + ('i \<Rightarrow> 'p) keras_model" where
  "load_model_uncompiled saved path =
     (case saved path of
        None \<Rightarrow> Inl (FileNotFoundError path)
      | Some fwd \<Rightarrow> Inr \<lparr>net = fwd, compiled = None\<rparr>)"

definition predict :: "('i \<Rightarrow> 'p) keras_model \<Rightarrow> 'i list \<Rightarrow> 'p list" where
  "predict m images = map (net m) images"

text \<open>
  \<open>predict_on_learned_model\<close>, lines 196-204, in two parts: the local \<open>u_net\<close> after
  \<open>compile\<close>, and the function itself.
\<close>

definition predict_on_learned_model_u_net ::
  "(string \<rightharpoonup> ('i \<Rightarrow> 'p)) \<Rightarrow> py_error + ('i \<Rightarrow> 'p) keras_model" where
  "predict_on_learned_model_u_net saved =
     bind (load_model_uncompiled saved ''generate_data/saved_models/u-net/'') (\<lambda>u_net.
       Inr (compile u_net
              \<lparr>optimizer = Nadam (1 / 10 ^ 4), loss = dice_loss,
               metrics = [Custom (\<lambda>y_true y_pred. dice_coef y_true y_pred smooth_default),
                          Recall, Precision]\<rparr>))"

definition predict_on_learned_model ::
  "(string \<rightharpoonup> ('i \<Rightarrow> 'p)) \<Rightarrow> 'i list \<Rightarrow> py_error + 'p list" where
  "predict_on_learned_model saved images =
     bind (predict_on_learned_model_u_net saved) (\<lambda>u_net. Inr (predict u_net images))"

text \<open>
  \<open>display_segmentation\<close>, lines 181-193, likewise; its result is the list of the
  arguments of the calls of \<open>_display\<close>, one singleton list per prediction.
\<close>

definition display_segmentation_u_net ::
  "(string \<rightharpoonup> ('i \<Rightarrow> 'p)) \<Rightarrow> py_error + ('i \<Rightarrow> 'p) keras_model" where
  "display_segmentation_u_net saved =
     bind (load_model_uncompiled saved ''generate_data/saved_models/u-net/'') (\<lambda>u_net.
       Inr (compile u_net
              \<lparr>optimizer = Nadam (1 / 10 ^ 4), loss = dice_loss,
               metrics = [Custom (\<lambda>y_true y_pred. dice_coef y_true y_pred smooth_default),
                          Recall, Precision]\<rparr>))"

definition display_segmentation ::
  "(string \<rightharpoonup> ('i \<Rightarrow> 'p)) \<Rightarrow> 'i list \<Rightarrow> py_error + 'p list list" where
  "display_segmentation saved images =
     bind (display_segmentation_u_net saved) (\<lambda>u_net.
       (let predictions = predict u_net images
        in Inr (map (\<lambda>prediction. [prediction]) predictions)))"

section \<open>Image conversion and the folder-pair loader (segmentation.py)\<close>

text \<open>
  An image is a list of rows, a row a list of pixels, a pixel the list of its channel
  values.  \<open>tf.image.resize_with_pad(image, target_height, target_width)\<close> belongs to the
  framework and is the parameter \<open>resize_with_pad\<close>; its values are real numbers (the
  rounding of 32-bit floats is not modelled).

  \<open>tf.cast(x, np.uint8)\<close> on a float drops the fraction; the result is an 8-bit word (a
  value outside 0..255 wraps here, where TensorFlow leaves the result unspecified).
  Dividing a \<open>uint8\<close> tensor by 255 is true division.
\<close>

type_synonym image = "real list list list"

definition cast_uint8 :: "real \<Rightarrow> 8 word" where
  "cast_uint8 x = word_of_int (if 0 \<le> x then \<lfloor>x\<rfloor> else \<lceil>x\<rceil>)"

text \<open>
  \<open>_convert_image\<close>, lines 23-28.  The source passes \<open>IMG_WIDTH\<close> as the target height
  and \<open>IMG_HEIGHT\<close> as the target width.
\<close>

definition convert_image :: "(image \<Rightarrow> nat \<Rightarrow> nat \<Rightarrow> image) \<Rightarrow> image \<Rightarrow> image" where
  "convert_image resize_with_pad img =
     map (map (map (\<lambda>v. real (unat (cast_uint8 v)) / 255)))
       (resize_with_pad img IMG_WIDTH IMG_HEIGHT)"

text \<open>
  The file system as the loader sees it: \<open>os.listdir\<close> gives the names in a directory, in
  no particular order, and raises when the directory does not exist; \<open>cv2.imread\<close> gives
  the image of a file, or \<open>None\<close> when it cannot be read, on which
  \<open>tf.image.resize_with_pad\<close> then raises.
\<close>

record filesys =
  listdir :: "string \<Rightarrow> string list option"
  imread :: "string \<Rightarrow> image option"

definition os_listdir :: "filesys \<Rightarrow> string \<Rightarrow> py_error + string list" where
  "os_listdir fs path =
     (case listdir fs path of None \<Rightarrow> Inl (FileNotFoundError path) | Some names \<Rightarrow> Inr names)"

definition load_file :: "filesys \<Rightarrow> (image \<Rightarrow> 'x) \<Rightarrow> string \<Rightarrow> py_error + 'x" where
  "load_file fs prep img_path =
     (case imread fs img_path of
        None \<Rightarrow> Inl (ValueError img_path)
      | Some img \<Rightarrow> Inr (prep img))"

text \<open>
  The two inner loops of \<open>_load_kaggle_dataset\<close> (lines 75-80 and 82-88): every name of the
  sorted listing is read, converted by \<open>prep\<close> and appended to the list.
\<close>

fun load_files ::
  "filesys \<Rightarrow> (image \<Rightarrow> 'x) \<Rightarrow> string \<Rightarrow> string list \<Rightarrow> 'x list \<Rightarrow> py_error + 'x list" where
  "load_files fs prep dir [] acc = Inr acc"
| "load_files fs prep dir (img_name # rest) acc =
     (case load_file fs prep (dir @ img_name) of
        Inl e \<Rightarrow> Inl e
      | Inr img \<Rightarrow> load_files fs prep dir rest (acc @ [img]))"

text \<open>The loop \<open>for dir in dirs\<close>, lines 69-88.\<close>

fun load_dirs ::
  "filesys \<Rightarrow> (image \<Rightarrow> 'x) \<Rightarrow> (image \<Rightarrow> 'y) \<Rightarrow> string \<Rightarrow> string \<Rightarrow> string list \<Rightarrow>
   'x list \<Rightarrow> 'y list \<Rightarrow> py_error + 'x list \<times> 'y list" where
  "load_dirs fs prep_img prep_mask images_path truth_path [] x_train y_train =
     Inr (x_train, y_train)"
| "load_dirs fs prep_img prep_mask images_path truth_path (d # dirs) x_train y_train =
     (let images_dir = images_path @ d @ ''/'';
          truth_dir = truth_path @ d @ ''/''
      in case os_listdir fs images_dir of
           Inl e \<Rightarrow> Inl e
         | Inr image_names \<Rightarrow>
             (case load_files fs prep_img images_dir (sort image_names) x_train of
                Inl e \<Rightarrow> Inl e
              | Inr x_train' \<Rightarrow>
                  (case os_listdir fs truth_dir of
                     Inl e \<Rightarrow> Inl e
                   | Inr truth_names \<Rightarrow>
                       (case load_files fs prep_mask truth_dir (sort truth_names) y_train of
                          Inl e \<Rightarrow> Inl e
                        | Inr y_train' \<Rightarrow>
                            load_dirs fs prep_img prep_mask images_path truth_path dirs
                              x_train' y_train'))))"

text \<open>
  \<open>_load_kaggle_dataset\<close>, lines 57-90.  \<open>tf.image.rgb_to_grayscale\<close> is the parameter
  \<open>rgb_to_grayscale\<close>.  The lists \<open>x_val\<close> and \<open>y_val\<close> are never used.
\<close>

definition load_kaggle_dataset ::
  "filesys \<Rightarrow> (image \<Rightarrow> nat \<Rightarrow> nat \<Rightarrow> image) \<Rightarrow> (image \<Rightarrow> image) \<Rightarrow> string \<Rightarrow>
   py_error + image list \<times> image list" where
  "load_kaggle_dataset fs resize_with_pad rgb_to_grayscale path =
     (let images_path = path @ ''images/'';
          truth_path = path @ ''truth/''
      in bind (os_listdir fs (path @ ''truth'')) (\<lambda>dirs.
           load_dirs fs (convert_image resize_with_pad)
             (\<lambda>mask. rgb_to_grayscale (convert_image resize_with_pad mask))
             images_path truth_path dirs [] []))"

text \<open>
  Inputs for evaluations: a resize that leaves the image as it is, a resize that gives a
  black image of the target size, and a file system whose image folder \<open>a\<close> has two files
  and whose truth folder \<open>a\<close> has one.
\<close>

definition resize_unchanged :: "image \<Rightarrow> nat \<Rightarrow> nat \<Rightarrow> image" where
  "resize_unchanged img target_height target_width = img"

definition resize_black :: "image \<Rightarrow> nat \<Rightarrow> nat \<Rightarrow> image" where
  "resize_black img target_height target_width =
     replicate target_height (replicate target_width [0, 0, 0])"

definition fs_mismatch :: filesys where
  "fs_mismatch =
     \<lparr>listdir =
        [''data/truth'' \<mapsto> [''a''],
         ''data/images/a/'' \<mapsto> [''2.png'', ''1.png''],
         ''data/truth/a/'' \<mapsto> [''1.png'']],
      imread =
        [''data/images/a/1.png'' \<mapsto> [[[255]]],
         ''data/images/a/2.png'' \<mapsto> [[[51]]],
         ''data/truth/a/1.png'' \<mapsto> [[[255]]]]\<rparr>"

definition fs_matching :: filesys where
  "fs_matching =
     \<lparr>listdir =
        [''data/truth'' \<mapsto> [''a''],
         ''data/images/a/'' \<mapsto> [''2.png'', ''1.png''],
         ''data/truth/a/'' \<mapsto> [''1.png'', ''2.png'']],
      imread =
        [''data/images/a/1.png'' \<mapsto> [[[255]]],
         ''data/images/a/2.png'' \<mapsto> [[[51]]],
         ''data/truth/a/1.png'' \<mapsto> [[[255]]],
         ''data/truth/a/2.png'' \<mapsto> [[[0]]]]\<rparr>"

section \<open>Properties of the Dice loss\<close>

lemma concat_map2_map2:
  "map length a = map length b \<Longrightarrow>
   concat (map2 (\<lambda>r s. map2 f r s) a b) = map2 f (concat a) (concat b)"
proof (induction a arbitrary: b)
  case Nil
  then show ?case by simp
next
  case (Cons r a)
  then obtain s b' where b: "b = s # b'" by (cases b) auto
  with Cons.prems have len: "length r = length s" and rest: "map length a = map length b'"
    by auto
  from Cons.IH [OF rest] len show ?case
    by (simp add: b zip_append)
qed

lemma sum_list_self_product:
  "\<forall>p \<in> set xs. p = 0 \<or> p = (1::real) \<Longrightarrow> sum_list (map2 (\<lambda>p q. p * q) xs xs) = sum_list xs"
  by (induction xs) auto

lemma sum_list_disjoint_product:
  "\<forall>(p, q) \<in> set (zip xs ys). \<not> (p = 1 \<and> q = (1::real)) \<Longrightarrow>
   \<forall>p \<in> set xs. p = 0 \<or> p = 1 \<Longrightarrow> \<forall>q \<in> set ys. q = 0 \<or> q = 1 \<Longrightarrow>
   sum_list (map2 (\<lambda>p q. p * q) xs ys) = 0"
proof (induction xs arbitrary: ys)
  case Nil
  then show ?case by simp
next
  case (Cons x xs)
  show ?case
  proof (cases ys)
    case Nil
    then show ?thesis by simp
  next
    case (Cons y ys')
    with Cons.prems have "x * y = 0" by auto
    moreover have "sum_list (map2 (\<lambda>p q. p * q) xs ys') = 0"
      using Cons.prems Cons.IH [of ys'] Cons by auto
    ultimately show ?thesis using Cons by simp
  qed
qed

lemma sum_list_binary_ge_one:
  "\<forall>p \<in> set xs. p = 0 \<or> p = (1::real) \<Longrightarrow> \<exists>p \<in> set xs. p = 1 \<Longrightarrow> 1 \<le> sum_list xs"
proof (induction xs)
  case Nil
  then show ?case by simp
next
  case (Cons x xs)
  have nonneg: "0 \<le> sum_list xs"
    using Cons.prems(1) by (intro sum_list_nonneg) auto
  show ?case
  proof (cases "x = 1")
    case True
    with nonneg show ?thesis by simp
  next
    case False
    with Cons.prems have "x = 0" and "\<exists>p \<in> set xs. p = 1" by auto
    with Cons.IH Cons.prems(1) show ?thesis by simp
  qed
qed

lemma dice_coef_pixels:
  "same_shape a b \<Longrightarrow>
   dice_coef a b s =
     Inr ((2 * sum_list (map2 (\<lambda>p q. p * q) (pixels a) (pixels b)) + s)
          / (sum_list (pixels a) + sum_list (pixels b) + s))"
  by (simp add: dice_coef_def tensor_mul_def same_shape_def reduce_sum_def pixels_def
      concat_map2_map2 Let_def)

text \<open>
  C1.  For binary masks, the Dice loss (flatten both, intersection = sum of the element-wise
  product, \<open>1 - (2 I + eps) / (sum y_true + sum y_pred + eps)\<close> with \<open>eps = 1e-15\<close>) is
  \<open>0\<close> when prediction and ground truth are identical, and lies within \<open>eps\<close> of \<open>1\<close>
  when they have one shape, are disjoint and are both non-empty.  Arithmetic is exact
  (real numbers).
\<close>

theorem dice_loss_identical_and_disjoint:
  "(binary y \<longrightarrow> dice_loss y y = Inr 0) \<and>
   (binary a \<and> binary b \<and> same_shape a b \<and> disjoint a b \<and> non_empty a \<and> non_empty b \<longrightarrow>
      (\<exists>l. dice_loss a b = Inr l \<and> l < 1 \<and> 1 - l < smooth_default
          \<and> l = 1 - smooth_default / (sum_list (pixels a) + sum_list (pixels b) + smooth_default)))"
proof (intro conjI impI)
  assume bin: "binary y"
  have pos: "0 \<le> sum_list (pixels y)"
    using bin unfolding binary_def by (intro sum_list_nonneg) auto
  have "sum_list (map2 (\<lambda>p q. p * q) (pixels y) (pixels y)) = sum_list (pixels y)"
    using bin unfolding binary_def by (rule sum_list_self_product)
  moreover have "2 * sum_list (pixels y) + smooth_default \<noteq> 0"
    using pos by (simp add: smooth_default_def add_nonneg_eq_0_iff)
  ultimately show "dice_loss y y = Inr 0"
    by (simp add: dice_loss_def dice_coef_pixels same_shape_def)
next
  assume h: "binary a \<and> binary b \<and> same_shape a b \<and> disjoint a b \<and> non_empty a \<and> non_empty b"
  have zero: "sum_list (map2 (\<lambda>p q. p * q) (pixels a) (pixels b)) = 0"
    using h unfolding binary_def disjoint_def by (intro sum_list_disjoint_product) auto
  have A: "1 \<le> sum_list (pixels a)"
    using h unfolding binary_def non_empty_def by (intro sum_list_binary_ge_one) auto
  have B: "1 \<le> sum_list (pixels b)"
    using h unfolding binary_def non_empty_def by (intro sum_list_binary_ge_one) auto
  define D where "D = sum_list (pixels a) + sum_list (pixels b) + smooth_default"
  have eps: "0 < smooth_default" by (simp add: smooth_default_def)
  have D: "2 < D" using A B eps by (simp add: D_def)
  have loss: "dice_loss a b = Inr (1 - smooth_default / D)"
    using h zero by (simp add: dice_loss_def dice_coef_pixels D_def)
  have q1: "0 < smooth_default / D" using eps D by simp
  have "smooth_default / D < smooth_default / 1"
    using eps D by (intro divide_strict_left_mono) auto
  then have q2: "smooth_default / D < smooth_default" by simp
  show "\<exists>l. dice_loss a b = Inr l \<and> l < 1 \<and> 1 - l < smooth_default
          \<and> l = 1 - smooth_default / (sum_list (pixels a) + sum_list (pixels b) + smooth_default)"
    using loss q1 q2 unfolding D_def by auto
qed

theorem dice_loss_identical_and_disjoint_witness:
  "binary [[[1, 0], [0, 1]]] \<and> dice_loss [[[1, 0], [0, 1]]] [[[1, 0], [0, 1]]] = Inr 0 \<and>
   binary [[[1, 0], [0, 0]]] \<and> binary [[[0, 0], [0, 1]]] \<and>
   same_shape [[[1, 0], [0, 0]]] [[[0, 0], [0, 1]]] \<and>
   disjoint [[[1, 0], [0, 0]]] [[[0, 0], [0, 1]]] \<and>
   non_empty [[[1, 0], [0, 0]]] \<and> non_empty [[[0, 0], [0, 1]]] \<and>
   (\<exists>l. dice_loss [[[1, 0], [0, 0]]] [[[0, 0], [0, 1]]] = Inr l \<and> l < 1 \<and> 1 - l < smooth_default)"
proof -
  have b1: "binary [[[1, 0], [0, 1]]]"
    by (simp add: binary_def pixels_def Flatten_def)
  have b2: "binary [[[1, 0], [0, 0]]]" and b3: "binary [[[0, 0], [0, 1]]]"
    by (simp_all add: binary_def pixels_def Flatten_def)
  have sh: "same_shape [[[1, 0], [0, 0]]] [[[0, 0], [0, 1]]]"
    by (simp add: same_shape_def Flatten_def)
  have dj: "disjoint [[[1, 0], [0, 0]]] [[[0, 0], [0, 1]]]"
    by (simp add: disjoint_def pixels_def Flatten_def)
  have n1: "non_empty [[[1, 0], [0, 0]]]" and n2: "non_empty [[[0, 0], [0, 1]]]"
    by (simp_all add: non_empty_def pixels_def Flatten_def)
  from dice_loss_identical_and_disjoint
         [of "[[[1, 0], [0, 1]]]" "[[[1, 0], [0, 0]]]" "[[[0, 0], [0, 1]]]"]
  show ?thesis using b1 b2 b3 sh dj n1 n2 by blast
qed

section \<open>Construction and training of the generative model\<close>

lemma floor_rat_numerals: "\<lfloor>numeral a / numeral b :: rat\<rfloor> = numeral a div numeral b"
  using floor_divide_of_int_eq [of "numeral a" "numeral b", where ?'a = rat] by simp

lemma small_floats:
  "float_of_int 0 = Inr 0" "float_of_int 1 = Inr 1" "float_of_int 2 = Inr 2"
  "float_of_int 3 = Inr 3" "float_of_int 4 = Inr 4" "float_of_int 5 = Inr 5"
  "float_of_int 6 = Inr 6" "float_of_int 7 = Inr 7" "float_of_int 8 = Inr 8"
  "float_of_int 9 = Inr 9"
  by (simp_all add: float_of_int_def int_truediv_def nearest_double_def binary_exponent_def
      pow2_def round_half_even_def compute_floorlog Let_def)

lemma getattr_missing: "self n = None \<Longrightarrow> getattr self n = Inl (AttributeError n)"
  by (simp add: getattr_def)

lemma create_encoder_missing:
  "self ''img_size'' = None \<Longrightarrow> create_encoder self = Inl (AttributeError ''img_size'')"
  by (simp add: create_encoder_def bind_def getattr_missing)

lemma create_generator_missing:
  "self ''noise_dim'' = None \<Longrightarrow> create_generator self = Inl (AttributeError ''noise_dim'')"
  by (simp add: create_generator_def bind_def getattr_missing)

lemma create_image_discriminator_missing:
  "self ''img_size'' = None \<Longrightarrow> create_image_discriminator self = Inl (AttributeError ''img_size'')"
  by (simp add: create_image_discriminator_def bind_def getattr_missing)

text \<open>
  C9 (amended).  \<open>ReGAN.__init__\<close> never returns an object.  When the keyword arguments
  are accepted (no key \<open>name\<close>, and the base-class initialiser returns), the failure is the
  \<open>AttributeError\<close> on \<open>img_size\<close> raised in \<open>_create_encoder\<close>; a key \<open>name\<close> in
  \<open>kwargs\<close> fails earlier with a \<open>TypeError\<close>.  On any object without \<open>img_size\<close>
  (without \<open>noise_dim\<close>) \<open>_create_encoder\<close> and \<open>_create_image_discriminator\<close>
  (\<open>_create_generator\<close>) raise \<open>AttributeError\<close> on that attribute.  When the
  base-class initialiser raises, \<open>__init__\<close> fails with that error.  The base object is
  assumed to have no attribute \<open>img_size\<close>.
\<close>

theorem ReGAN_init_never_returns:
  assumes base: "\<forall>kw self0. Model_init kw = Inr self0 \<longrightarrow> self0 ''img_size'' = None"
  shows "(\<exists>e. ReGAN_init Model_init img_size channels latent_dim batch_size kernel_size kwargs = Inl e) \<and>
         (''name'' \<notin> fst ` set kwargs \<and>
          (\<exists>self0. Model_init ((''name'', StrV ''ReGAN'') # kwargs) = Inr self0) \<longrightarrow>
            ReGAN_init Model_init img_size channels latent_dim batch_size kernel_size kwargs
              = Inl (AttributeError ''img_size'')) \<and>
         (''name'' \<in> fst ` set kwargs \<longrightarrow>
            (\<exists>m. ReGAN_init Model_init img_size channels latent_dim batch_size kernel_size kwargs
              = Inl (TypeError m))) \<and>
         (''name'' \<notin> fst ` set kwargs \<and>
          Model_init ((''name'', StrV ''ReGAN'') # kwargs) = Inl err \<longrightarrow>
            ReGAN_init Model_init img_size channels latent_dim batch_size kernel_size kwargs
              = Inl err) \<and>
         (self ''img_size'' = None \<longrightarrow>
            create_encoder self = Inl (AttributeError ''img_size'') \<and>
            create_image_discriminator self = Inl (AttributeError ''img_size'')) \<and>
         (self ''noise_dim'' = None \<longrightarrow>
            create_generator self = Inl (AttributeError ''noise_dim''))"
proof -
  have accepted: "ReGAN_init Model_init img_size channels latent_dim batch_size kernel_size kwargs
              = Inl (AttributeError ''img_size'')"
    if "''name'' \<notin> fst ` set kwargs"
      and "Model_init ((''name'', StrV ''ReGAN'') # kwargs) = Inr self0" for self0
  proof -
    from base that(2) have "self0 ''img_size'' = None" by blast
    then have "create_encoder (self0(''image_size'' \<mapsto> img_size, ''channels'' \<mapsto> channels,
        ''latent_dim'' \<mapsto> latent_dim, ''batch_size'' \<mapsto> batch_size,
        ''kernel_size'' \<mapsto> kernel_size)) = Inl (AttributeError ''img_size'')"
      by (intro create_encoder_missing) simp
    with that show ?thesis
      by (simp add: ReGAN_init_def bind_def Let_def)
  qed
  have never: "\<exists>e. ReGAN_init Model_init img_size channels latent_dim batch_size kernel_size kwargs = Inl e"
  proof (cases "''name'' \<in> fst ` set kwargs")
    case True
    then show ?thesis by (simp add: ReGAN_init_def)
  next
    case False
    show ?thesis
    proof (cases "Model_init ((''name'', StrV ''ReGAN'') # kwargs)")
      case (Inl e)
      with False show ?thesis by (simp add: ReGAN_init_def bind_def)
    next
      case (Inr self0)
      from accepted [OF False Inr] show ?thesis by blast
    qed
  qed
  have rejected: "ReGAN_init Model_init img_size channels latent_dim batch_size kernel_size kwargs
              = Inl err"
    if "''name'' \<notin> fst ` set kwargs"
      and "Model_init ((''name'', StrV ''ReGAN'') # kwargs) = Inl err"
    using that by (simp add: ReGAN_init_def bind_def)
  show ?thesis
    using never accepted rejected
    by (auto simp: ReGAN_init_def create_encoder_missing create_generator_missing
        create_image_discriminator_missing)
qed


theorem ReGAN_init_never_returns_witness:
  "ReGAN_init base_init_accepting (IntV 512) (IntV 1) (IntV 4096) (IntV 128) (IntV 5) []
     = Inl (AttributeError ''img_size'')"
proof -
  have h: "\<forall>kw self0. base_init_accepting kw = Inr self0 \<longrightarrow> self0 ''img_size'' = None"
    by (auto simp: base_init_accepting_def)
  from ReGAN_init_never_returns [OF h, where kwargs = "[]" and img_size = "IntV 512"
      and channels = "IntV 1" and latent_dim = "IntV 4096" and batch_size = "IntV 128"
      and kernel_size = "IntV 5" and self = Map.empty and err = ZeroDivisionError]
  show ?thesis using h unfolding base_init_accepting_def [of "[(''name'', StrV ''ReGAN'')]"]
    by simp
qed

text \<open>
  The claim C9 as stated (an attribute error for every choice of constructor arguments) fails
  for \<open>ReGAN(name="gan")\<close>: the error is a \<open>TypeError\<close>.
\<close>

theorem ReGAN_init_name_keyword_counterexample:
  "ReGAN_init base_init_accepting (IntV 512) (IntV 1) (IntV 4096) (IntV 128) (IntV 5)
     [(''name'', StrV ''gan'')]
   = Inl (TypeError ''got multiple values for keyword argument name'')"
  by (simp add: ReGAN_init_def)

lemma epochs_positive: "map int [0..<nat (1 + int n)] = 0 # map int [1..<Suc n]"
proof -
  have "nat (1 + int n) = Suc n" by simp
  then show ?thesis by (simp add: upt_conv_Cons del: upt_Suc)
qed

lemma tenth_of_ten: "int_truediv 10 10 = Inr 1"
  by (simp add: int_truediv_def nearest_double_def binary_exponent_def pow2_def
      round_half_even_def compute_floorlog Let_def)

lemma visualize_ten_epochs:
  assumes "k \<in> {0, 1, 2, 3, 4, 5, 6, 7, 8, 9}"
  shows "visualize self 10 k generated_images =
           (case getattr self ''noise_dim'' of
              Inl e \<Rightarrow> Inl e
            | Inr nd \<Rightarrow> Inr (generated_images @ [NoneV]))"
proof -
  from assms small_floats have f: "float_of_int k = Inr (of_int k)" by auto
  have m: "float_mod (of_int k) 1 = Inr 0" by (simp add: float_mod_def c_fmod_def)
  show ?thesis
    by (simp add: visualize_def bind_def tenth_of_ten f m call_def split: sum.splits)
qed

lemma visualize_first_epoch_raises:
  "\<exists>e. visualize (self(''noise_dim'' := None)) epochs 0 generated_images = Inl e"
proof (cases "int_truediv epochs 10")
  case (Inl e)
  then show ?thesis by (simp add: visualize_def bind_def)
next
  case (Inr y)
  have m: "float_mod 0 y = (if y = 0 then Inl ZeroDivisionError else Inr 0)"
    by (simp add: float_mod_def c_fmod_def)
  show ?thesis
    by (simp add: visualize_def bind_def Inr small_floats(1) m getattr_def)
qed

text \<open>
  C8.  \<open>ReGAN.train\<close> on an object without the attribute \<open>noise_dim\<close> raises for every
  positive epoch count, every dataset and every batch size: at the latest, epoch 0 reads
  \<open>self.noise_dim\<close> for the visualization batch.  With the attributes of \<open>__init__\<close>, an
  empty dataset, 10 epochs and batch size 1 the error is \<open>AttributeError\<close> on
  \<open>noise_dim\<close>; were \<open>noise_dim\<close> defined, every epoch 0..9 would store \<open>None\<close>, the
  result of \<open>ReGAN.call\<close>.
\<close>

theorem train_visualization_raises:
  "(\<exists>e. train (self(''noise_dim'' := None)) fw w dataset (1 + int n) batch_size = Inl e) \<and>
   train default_attrs fw w [] 10 1 = Inl (AttributeError ''noise_dim'') \<and>
   train (default_attrs(''noise_dim'' \<mapsto> IntV 100)) fw w [] 10 1 = Inr (replicate 10 NoneV, w)"
proof (intro conjI)
  let ?self = "self(''noise_dim'' := None)"
  from visualize_first_epoch_raises [of self "1 + int n" "[]"]
  obtain e0 where v: "visualize ?self (1 + int n) 0 [] = Inl e0" by blast
  show "\<exists>e. train ?self fw w dataset (1 + int n) batch_size = Inl e"
  proof (cases "batch_loop (train_step ?self fw) batch_size 0 dataset (epoch_start w)")
    case (Inl e)
    then show ?thesis by (simp add: train_def epochs_positive)
  next
    case (Inr s)
    then show ?thesis using v by (simp add: train_def epochs_positive)
  qed
next
  have v: "visualize default_attrs 10 0 [] = Inl (AttributeError ''noise_dim'')"
    by (simp add: visualize_ten_epochs getattr_def default_attrs_def)
  show "train default_attrs fw w [] 10 1 = Inl (AttributeError ''noise_dim'')"
    using epochs_positive [of 9] v by (simp add: train_def)
next
  let ?self = "default_attrs(''noise_dim'' \<mapsto> IntV 100)"
  have v: "visualize ?self 10 k generated_images = Inr (generated_images @ [NoneV])"
    if "k \<in> {0, 1, 2, 3, 4, 5, 6, 7, 8, 9}" for k generated_images
    using visualize_ten_epochs [OF that, of ?self generated_images] by (simp add: getattr_def)
  have ep: "map int [0..<nat 10] = [0, 1, 2, 3, 4, 5, 6, 7, 8, 9]"
    by (simp add: upt_conv_Cons del: upt_Suc)
  have rp: "replicate 10 NoneV = [NoneV, NoneV, NoneV, NoneV, NoneV, NoneV, NoneV, NoneV, NoneV, NoneV]"
    by (simp add: numeral_eq_Suc)
  show "train ?self fw w [] 10 1 = Inr (replicate 10 NoneV, w)"
    unfolding train_def ep rp by (simp add: v epoch_start_def)
qed

section \<open>Batching of the training loop\<close>

lemma int_mod_eq_0_iff: "(int i mod int bs = 0) = (i mod bs = 0)"
  using zmod_int [of i bs] by (metis of_nat_eq_0_iff)

lemma pred_mod:
  assumes "0 < i" "0 < (bs::nat)"
  shows "i mod bs = 0 \<Longrightarrow> Suc ((i - 1) mod bs) = bs"
    and "i mod bs \<noteq> 0 \<Longrightarrow> Suc ((i - 1) mod bs) = i mod bs"
proof -
  have "Suc (i - 1) = i" using assms by simp
  with mod_Suc [of "i - 1" bs]
  have msuc: "i mod bs = (if Suc ((i - 1) mod bs) = bs then 0 else Suc ((i - 1) mod bs))"
    by simp
  show "i mod bs = 0 \<Longrightarrow> Suc ((i - 1) mod bs) = bs"
    using msuc by (simp split: if_splits)
  show "i mod bs \<noteq> 0 \<Longrightarrow> Suc ((i - 1) mod bs) = i mod bs"
    using msuc by (simp split: if_splits)
qed

lemma full_batches_short: "length xs < n \<Longrightarrow> full_batches n xs = []"
  by (simp add: full_batches_def)

lemma full_batches_first:
  assumes "0 < n" "length a = n"
  shows "full_batches n (a @ ys) = a # full_batches n ys"
proof -
  have d: "length (a @ ys) div n = Suc (length ys div n)"
    using assms by simp
  have u: "[0..<Suc (length ys div n)] = 0 # map Suc [0..<length ys div n]"
    by (simp only: map_Suc_upt upt_conv_Cons [OF zero_less_Suc])
  have h: "take n (drop (0 * n) (a @ ys)) = a" using assms by simp
  have t: "take n (drop (Suc k * n) (a @ ys)) = take n (drop (k * n) ys)" for k
    using assms by simp
  show ?thesis
    unfolding full_batches_def d u list.map map_map comp_def h t by (rule refl)
qed

lemma batch_loop_skip:
  "bs \<noteq> 0 \<Longrightarrow> int i mod bs \<noteq> 0 \<Longrightarrow>
   batch_loop step bs i (x # xs) s =
   batch_loop step bs (Suc i) xs (s\<lparr>next_batch := next_batch s @ [x]\<rparr>)"
  by (simp add: Let_def)

lemma batch_loop_trigger:
  "bs \<noteq> 0 \<Longrightarrow> int i mod bs = 0 \<Longrightarrow>
   batch_loop step bs i (x # xs) s =
     (case step (weights s) (next_batch s @ [x]) of
        Inl e \<Rightarrow> Inl e
      | Inr ((gl, dl), w') \<Rightarrow>
          batch_loop step bs (Suc i) xs
            (s\<lparr>next_batch := [], min_gen_loss := min (min_gen_loss s) gl,
               min_disc_loss := min (min_disc_loss s) dl, weights := w'\<rparr>))"
  by (simp add: Let_def)

lemma epoch_result_first:
  "0 < n \<Longrightarrow> length a = n \<Longrightarrow> epoch_result n (a @ ys) r = epoch_result n ys r"
  by (simp add: epoch_result_def full_batches_first split: sum.splits prod.splits)

lemma batch_loop_later:
  "0 < bs \<Longrightarrow> 0 < i \<Longrightarrow> length (next_batch s) = (i - 1) mod bs \<Longrightarrow>
   batch_loop step (int bs) i xs s =
     epoch_result bs (next_batch s @ xs)
       (steps_on step (full_batches bs (next_batch s @ xs))
          (min_gen_loss s, min_disc_loss s, weights s))"
proof (induction xs arbitrary: i s)
  case Nil
  then have "length (next_batch s) < bs" by simp
  then show ?case by (simp add: full_batches_short epoch_result_def)
next
  case (Cons x xs)
  let ?nb = "next_batch s @ [x]"
  have bs0: "int bs \<noteq> 0" using Cons.prems(1) by simp
  have app: "next_batch s @ x # xs = ?nb @ xs" by simp
  show ?case
  proof (cases "i mod bs = 0")
    case True
    then have imod: "int i mod int bs = 0" by (simp add: int_mod_eq_0_iff)
    from pred_mod(1) [OF Cons.prems(2) Cons.prems(1) True] Cons.prems(3)
    have len: "length ?nb = bs" by simp
    have fb: "full_batches bs (next_batch s @ x # xs) = ?nb # full_batches bs xs"
      unfolding app by (rule full_batches_first [OF Cons.prems(1) len])
    show ?thesis
    proof (cases "step (weights s) ?nb")
      case (Inl e)
      then show ?thesis
        unfolding batch_loop_trigger [OF bs0 imod] fb by (simp add: epoch_result_def)
    next
      case (Inr r)
      obtain gl dl w' where r: "r = ((gl, dl), w')" by (metis surj_pair)
      let ?s1 = "s\<lparr>next_batch := [], min_gen_loss := min (min_gen_loss s) gl,
               min_disc_loss := min (min_disc_loss s) dl, weights := w'\<rparr>"
      have l1: "length (next_batch ?s1) = (Suc i - 1) mod bs" using True by simp
      have ih: "batch_loop step (int bs) (Suc i) xs ?s1 =
            epoch_result bs (next_batch ?s1 @ xs)
              (steps_on step (full_batches bs (next_batch ?s1 @ xs))
                 (min_gen_loss ?s1, min_disc_loss ?s1, weights ?s1))"
        by (rule Cons.IH [OF Cons.prems(1) _ l1]) simp
      have dr: "drop (length (concat (?nb # full_batches bs xs))) (next_batch s @ x # xs)
              = drop (length (concat (full_batches bs xs))) xs"
        by simp
      have st: "step (weights s) ?nb = Inr ((gl, dl), w')" using Inr r by simp
      have lhs: "batch_loop step (int bs) i (x # xs) s = batch_loop step (int bs) (Suc i) xs ?s1"
        unfolding batch_loop_trigger [OF bs0 imod] st by simp
      have rhs: "steps_on step (full_batches bs (next_batch s @ x # xs))
                   (min_gen_loss s, min_disc_loss s, weights s)
               = steps_on step (full_batches bs xs)
                   (min (min_gen_loss s) gl, min (min_disc_loss s) dl, w')"
        unfolding fb by (simp add: st)
      have res: "epoch_result bs (next_batch s @ x # xs) r' = epoch_result bs xs r'" for r'
        unfolding app by (rule epoch_result_first [OF Cons.prems(1) len])
      show ?thesis
        unfolding lhs rhs ih res by simp
    qed
  next
    case False
    then have imod: "int i mod int bs \<noteq> 0" by (simp add: int_mod_eq_0_iff)
    let ?s1 = "s\<lparr>next_batch := ?nb\<rparr>"
    from pred_mod(2) [OF Cons.prems(2) Cons.prems(1) False] Cons.prems(3)
    have l1: "length (next_batch ?s1) = (Suc i - 1) mod bs" by simp
    have ih: "batch_loop step (int bs) (Suc i) xs ?s1 =
            epoch_result bs (next_batch ?s1 @ xs)
              (steps_on step (full_batches bs (next_batch ?s1 @ xs))
                 (min_gen_loss ?s1, min_disc_loss ?s1, weights ?s1))"
      by (rule Cons.IH [OF Cons.prems(1) _ l1]) simp
    show ?thesis
      unfolding batch_loop_skip [OF bs0 imod] using ih by simp
  qed
qed


lemma batch_loop_epoch:
  assumes "0 < bs"
  shows "batch_loop step (int bs) 0 dataset (epoch_start w) =
     (case steps_on step (batches_of_epoch bs dataset) (999999, 999999, w) of
        Inl e \<Rightarrow> Inl e
      | Inr (g, d, w') \<Rightarrow>
          Inr \<lparr>next_batch = discarded bs dataset, min_gen_loss = g, min_disc_loss = d,
               weights = w'\<rparr>)"
proof (cases dataset)
  case Nil
  then show ?thesis
    by (simp add: batches_of_epoch_def discarded_def epoch_start_def)
next
  case (Cons x xs)
  have bs0: "int bs \<noteq> 0" using assms by simp
  have z: "int 0 mod int bs = 0" by simp
  show ?thesis
  proof (cases "step w [x]")
    case (Inl e)
    then show ?thesis
      unfolding Cons batch_loop_trigger [OF bs0 z]
      by (simp add: batches_of_epoch_def epoch_start_def)
  next
    case (Inr r)
    obtain gl dl w' where r: "r = ((gl, dl), w')" by (metis surj_pair)
    have st: "step w [x] = Inr ((gl, dl), w')" using Inr r by simp
    let ?s1 = "\<lparr>next_batch = [], min_gen_loss = min 999999 gl,
                 min_disc_loss = min 999999 dl, weights = w'\<rparr> :: ('a, 'b) epoch_state"
    have lhs: "batch_loop step (int bs) 0 (x # xs) (epoch_start w)
                 = batch_loop step (int bs) (Suc 0) xs ?s1"
      unfolding batch_loop_trigger [OF bs0 z] by (simp add: epoch_start_def st)
    have later: "batch_loop step (int bs) (Suc 0) xs ?s1 =
        epoch_result bs (next_batch ?s1 @ xs)
          (steps_on step (full_batches bs (next_batch ?s1 @ xs))
             (min_gen_loss ?s1, min_disc_loss ?s1, weights ?s1))"
      by (rule batch_loop_later [OF assms]) simp_all
    have d: "discarded bs (x # xs) = drop (length (concat (full_batches bs xs))) xs"
      by (simp add: discarded_def batches_of_epoch_def)
    have bo: "steps_on step (batches_of_epoch bs (x # xs)) (999999, 999999, w)
              = steps_on step (full_batches bs xs) (min 999999 gl, min 999999 dl, w')"
      by (simp add: batches_of_epoch_def st)
    show ?thesis
      unfolding Cons lhs later bo
      by (simp add: epoch_result_def d split: sum.splits prod.splits)
  qed
qed

lemma epoch_loop_by_batches:
  "0 < n \<Longrightarrow>
   epoch_loop self fw dataset epochs (int n) es w gi
     = epochs_by_batches self fw dataset epochs n es w gi"
proof (induction es arbitrary: w gi)
  case Nil
  then show ?case by simp
next
  case (Cons epoch es)
  let ?steps = "steps_on (train_step self fw) (batches_of_epoch n dataset) (999999, 999999, w)"
  show ?case
  proof (cases ?steps)
    case (Inl e)
    then show ?thesis
      unfolding epoch_loop.simps epochs_by_batches.simps batch_loop_epoch [OF Cons.prems]
      by simp
  next
    case (Inr r)
    obtain g d w' where r: "r = (g, d, w')" by (metis surj_pair)
    show ?thesis
    proof (cases "visualize self epochs epoch gi")
      case (Inl e)
      then show ?thesis
        unfolding epoch_loop.simps epochs_by_batches.simps batch_loop_epoch [OF Cons.prems]
          Inr r
        by simp
    next
      case vis: (Inr gi')
      show ?thesis
        unfolding epoch_loop.simps epochs_by_batches.simps batch_loop_epoch [OF Cons.prems]
          Inr r vis
        by (simp add: Cons.IH [OF Cons.prems])
    qed
  qed
qed

lemma full_batches_length: "b \<in> set (full_batches n xs) \<Longrightarrow> length b = n"
proof -
  assume "b \<in> set (full_batches n xs)"
  then obtain k where k: "k < length xs div n" and b: "b = take n (drop (k * n) xs)"
    by (auto simp: full_batches_def)
  from k have "Suc k * n \<le> (length xs div n) * n" by (intro mult_le_mono1) simp
  also have "\<dots> \<le> length xs" by simp
  finally have "n \<le> length xs - k * n" by simp
  then show ?thesis by (simp add: b)
qed

lemma full_batches_rest:
  "0 < n \<Longrightarrow> concat (full_batches n xs) @ drop (length (concat (full_batches n xs))) xs = xs \<and>
             length (drop (length (concat (full_batches n xs))) xs) < n \<and>
             length (full_batches n xs) = length xs div n"
proof (induction "length xs" arbitrary: xs rule: less_induct)
  case less
  show ?case
  proof (cases "length xs < n")
    case True
    then show ?thesis by (simp add: full_batches_short)
  next
    case False
    have tk: "length (take n xs) = n" using False by simp
    have "full_batches n (take n xs @ drop n xs) = take n xs # full_batches n (drop n xs)"
      by (rule full_batches_first [OF less.prems tk])
    then have fb: "full_batches n xs = take n xs # full_batches n (drop n xs)" by simp
    have shorter: "length (drop n xs) < length xs" using False less.prems by simp
    from less.hyps [OF shorter less.prems] have ih:
      "concat (full_batches n (drop n xs))
         @ drop (length (concat (full_batches n (drop n xs)))) (drop n xs) = drop n xs"
      "length (drop (length (concat (full_batches n (drop n xs)))) (drop n xs)) < n"
      by simp_all
    have dr: "drop (length (concat (full_batches n xs))) xs
              = drop (length (concat (full_batches n (drop n xs)))) (drop n xs)"
      unfolding fb using tk by (simp add: add.commute)
    have "concat (full_batches n xs) @ drop (length (concat (full_batches n xs))) xs
          = take n xs @ drop n xs"
      unfolding dr unfolding fb using ih(1) by simp
    moreover have "length (full_batches n xs) = length xs div n"
      by (simp add: full_batches_def)
    ultimately show ?thesis using ih(2) dr by simp
  qed
qed

lemma count_multiples: "0 < n \<Longrightarrow> length (filter (\<lambda>i. i mod n = 0) [0..<Suc k]) = Suc (k div n)"
proof (induction k)
  case 0
  then show ?case by simp
next
  case (Suc k)
  have "length (filter (\<lambda>i. i mod n = 0) [0..<Suc (Suc k)])
        = length (filter (\<lambda>i. i mod n = 0) [0..<Suc k]) + (if Suc k mod n = 0 then 1 else 0)"
    by simp
  also have "\<dots> = Suc (k div n) + (if Suc k mod n = 0 then 1 else 0)"
    by (simp only: Suc.IH [OF Suc.prems])
  also have "\<dots> = Suc (Suc k div n)"
    by (simp add: div_Suc)
  finally show ?case .
qed


lemma train_step_complete:
  assumes "self ''batch_size'' \<noteq> None" "self ''noise_dim'' \<noteq> None"
    "self ''generator'' \<noteq> None" "self ''discriminator'' \<noteq> None"
    "self ''gen_loss'' \<noteq> None" "self ''disc_loss'' \<noteq> None"
    "self ''gen_optimizer'' \<noteq> None" "self ''disc_optimizer'' \<noteq> None"
  shows "train_step self fw w images = fw self w images"
  using assms by (auto simp: train_step_def bind_def getattr_def)

text \<open>
  C10.  For a positive batch size, \<open>ReGAN.train\<close> is training by batches: in every epoch
  \<open>train_step\<close> is called, in order and each time on the weights the call before left, on
  the batches of \<open>batches_of_epoch\<close> and on nothing else, and an error of a call ends the
  training.  For a non-empty dataset the first of these batches is the single sample of
  index 0 and every later one has exactly \<open>batch_size\<close> samples; the batches are
  consecutive pieces of the dataset, as many as there are indices \<open>i\<close> with
  \<open>i % batch_size = 0\<close>; the rest, fewer than \<open>batch_size\<close> samples, is what
  \<open>next_batch\<close> holds at the end of the epoch and gets no call.  On an object that has
  the attributes \<open>train_step\<close> reads, \<open>train_step\<close> is the framework's gradient step.
\<close>

theorem train_batching:
  assumes "0 < batch_size"
  shows "train self fw w dataset epochs batch_size
           = train_by_batches self fw w dataset epochs (nat batch_size) \<and>
         batch_loop (train_step self fw) batch_size 0 dataset (epoch_start w) =
           (case steps_on (train_step self fw) (batches_of_epoch (nat batch_size) dataset)
                   (999999, 999999, w) of
              Inl e \<Rightarrow> Inl e
            | Inr (g, d, w') \<Rightarrow>
                Inr \<lparr>next_batch = discarded (nat batch_size) dataset, min_gen_loss = g,
                     min_disc_loss = d, weights = w'\<rparr>) \<and>
         (self ''batch_size'' \<noteq> None \<and> self ''noise_dim'' \<noteq> None \<and>
          self ''generator'' \<noteq> None \<and> self ''discriminator'' \<noteq> None \<and>
          self ''gen_loss'' \<noteq> None \<and> self ''disc_loss'' \<noteq> None \<and>
          self ''gen_optimizer'' \<noteq> None \<and> self ''disc_optimizer'' \<noteq> None \<longrightarrow>
            train_step self fw = fw self) \<and>
         (dataset \<noteq> [] \<longrightarrow>
            (\<exists>later. batches_of_epoch (nat batch_size) dataset = [hd dataset] # later \<and>
               (\<forall>b \<in> set later. int (length b) = batch_size))) \<and>
         concat (batches_of_epoch (nat batch_size) dataset) @ discarded (nat batch_size) dataset
           = dataset \<and>
         int (length (discarded (nat batch_size) dataset)) < batch_size \<and>
         length (batches_of_epoch (nat batch_size) dataset)
           = length (filter (\<lambda>i. int i mod batch_size = 0) [0..<length dataset])"
proof -
  define n where "n = nat batch_size"
  have n: "batch_size = int n" "0 < n" using assms by (simp_all add: n_def)
  have A: "train self fw w dataset epochs (int n) = train_by_batches self fw w dataset epochs n"
    by (simp add: train_def train_by_batches_def epoch_loop_by_batches [OF n(2)])
  have B: "batch_loop (train_step self fw) (int n) 0 dataset (epoch_start w) =
           (case steps_on (train_step self fw) (batches_of_epoch n dataset)
                   (999999, 999999, w) of
              Inl e \<Rightarrow> Inl e
            | Inr (g, d, w') \<Rightarrow>
                Inr \<lparr>next_batch = discarded n dataset, min_gen_loss = g,
                     min_disc_loss = d, weights = w'\<rparr>)"
    by (rule batch_loop_epoch [OF n(2)])
  have C: "train_step self fw = fw self"
    if "self ''batch_size'' \<noteq> None \<and> self ''noise_dim'' \<noteq> None \<and>
          self ''generator'' \<noteq> None \<and> self ''discriminator'' \<noteq> None \<and>
          self ''gen_loss'' \<noteq> None \<and> self ''disc_loss'' \<noteq> None \<and>
          self ''gen_optimizer'' \<noteq> None \<and> self ''disc_optimizer'' \<noteq> None"
    using that by (intro ext train_step_complete) simp_all
  have D: "\<exists>later. batches_of_epoch n dataset = [hd dataset] # later \<and>
               (\<forall>b \<in> set later. int (length b) = int n)"
    if "dataset \<noteq> []"
  proof -
    from that obtain d ds where ds: "dataset = d # ds" by (cases dataset) auto
    have "\<forall>b \<in> set (full_batches n ds). int (length b) = int n"
      by (simp add: full_batches_length)
    then show ?thesis by (simp add: ds batches_of_epoch_def)
  qed
  have E: "concat (batches_of_epoch n dataset) @ discarded n dataset = dataset \<and>
           length (discarded n dataset) < n \<and>
           length (batches_of_epoch n dataset)
             = length (filter (\<lambda>i. i mod n = 0) [0..<length dataset])"
  proof (cases dataset)
    case Nil
    then show ?thesis using n(2) by (simp add: batches_of_epoch_def discarded_def)
  next
    case (Cons d ds)
    have dd: "discarded n (d # ds) = drop (length (concat (full_batches n ds))) ds"
      by (simp add: discarded_def batches_of_epoch_def)
    from full_batches_rest [OF n(2), of ds] count_multiples [OF n(2), of "length ds"]
    show ?thesis
      unfolding Cons dd by (simp add: batches_of_epoch_def)
  qed
  have F: "filter (\<lambda>i. int i mod int n = 0) [0..<length dataset]
           = filter (\<lambda>i. i mod n = 0) [0..<length dataset]"
    by (simp add: int_mod_eq_0_iff)
  show ?thesis
    unfolding n(1) nat_int F
    using A B C D E by simp
qed

lemma example_batches: "batches_of_epoch 2 ''abcdef'' = [''a'', ''bc'', ''de'']"
  by (simp add: batches_of_epoch_def full_batches_def upt_conv_Cons del: upt_Suc)

lemma example_step: "train_step completed_attrs recording_step w b = Inr ((0, 0), w @ [b])"
  by (simp add: train_step_def bind_def getattr_def completed_attrs_def default_attrs_def
      recording_step_def)

lemma fifth: "int_truediv 2 10 = Inr (3602879701896397 / 2 ^ 54)"
  by (simp add: int_truediv_def nearest_double_def binary_exponent_def pow2_def
      round_half_even_def compute_floorlog Let_def floor_rat_numerals)

lemma example_visualize:
  "visualize completed_attrs 2 0 [] = Inr [NoneV]"
  "visualize completed_attrs 2 1 [NoneV] = Inr [NoneV]"
  by (simp_all add: visualize_def bind_def fifth small_floats float_mod_def c_fmod_def getattr_def
      completed_attrs_def default_attrs_def call_def floor_rat_numerals)

theorem train_batching_witness:
  "train completed_attrs recording_step [] ''abcdef'' 2 2
     = Inr ([NoneV], [''a'', ''bc'', ''de'', ''a'', ''bc'', ''de''])"
proof -
  have z: "(0::int) < 2" by simp
  have ep: "map int [0..<nat 2] = [0, 1]"
    by (simp add: upt_conv_Cons del: upt_Suc)
  have run: "train_by_batches completed_attrs recording_step [] ''abcdef'' 2 2
     = Inr ([NoneV], [''a'', ''bc'', ''de'', ''a'', ''bc'', ''de''])"
    unfolding train_by_batches_def ep
    by (simp add: example_batches example_step example_visualize)
  from train_batching [OF z, of completed_attrs recording_step "[]" "''abcdef''" 2]
  show ?thesis using run by simp
qed

section \<open>Properties of the segmentation network\<close>

lemma get_layer_Cons:
  "get_layer (l # ls) n = (if lname l = n then Inr l else get_layer ls n)"
  by (simp add: get_layer_def)


lemma stage_indices: "map int [1..<length [a, b, c, d] + 1] = [1, 2, 3, 4]"
  by (simp add: upt_conv_Cons del: upt_Suc)

lemma create_model_eval:
  assumes "get_layer ls ''block_13_expand_relu'' = Inr l13"
    and "get_layer ls ''block_6_expand_relu'' = Inr l6"
    and "get_layer ls ''block_3_expand_relu'' = Inr l3"
    and "get_layer ls ''block_1_expand_relu'' = Inr l1"
  shows "create_model ls =
    Inr \<lparr>net = \<lparr>graph_name = ''U-Net'',
                graph_inputs = LayerOutput \<lparr>lname = ''input_image'', trainable = True,
                     out_shape = (IMG_WIDTH, IMG_HEIGHT, 3)\<rparr>,
                graph_output =
                  Apply (Activation ''sigmoid'')
                   [Apply (Conv2D (IntV 1) (TupleV [IntV 1, IntV 1]) ''same'')
                     [decoder_stage
                       (decoder_stage
                         (decoder_stage
                           (decoder_stage (LayerOutput l13) (LayerOutput l6) 128 128)
                           (LayerOutput l3) 64 64)
                         (LayerOutput l1) 48 48)
                       (LayerOutput \<lparr>lname = ''input_image'', trainable = True,
                     out_shape = (IMG_WIDTH, IMG_HEIGHT, 3)\<rparr>) 32 32]]\<rparr>,
         compiled = Some \<lparr>optimizer = Nadam (1 / 10 ^ 4), loss = dice_loss,
                         metrics = [Custom (\<lambda>y_true y_pred. dice_coef y_true y_pred smooth_default),
                                    Recall, Precision]\<rparr>\<rparr>"
  using assms
  by (simp add: create_model_def Let_def bind_def get_layer_Cons stage_indices py_index_def
      compile_def)


lemma MobileNetV2_example_layers:
  "get_layer MobileNetV2_example ''block_13_expand_relu''
     = Inr \<lparr>lname = ''block_13_expand_relu'', trainable = True, out_shape = (32, 32, 576)\<rparr>"
  "get_layer MobileNetV2_example ''block_6_expand_relu''
     = Inr \<lparr>lname = ''block_6_expand_relu'', trainable = True, out_shape = (64, 64, 192)\<rparr>"
  "get_layer MobileNetV2_example ''block_3_expand_relu''
     = Inr \<lparr>lname = ''block_3_expand_relu'', trainable = True, out_shape = (128, 128, 144)\<rparr>"
  "get_layer MobileNetV2_example ''block_1_expand_relu''
     = Inr \<lparr>lname = ''block_1_expand_relu'', trainable = True, out_shape = (256, 256, 96)\<rparr>"
  by (simp_all add: MobileNetV2_example_def get_layer_def)

lemma shape_of_conv_bn_relu:
  "shape_of x = Some (h, w, c) \<Longrightarrow> shape_of (conv_bn_relu n x) = Some (h, w, nat n)"
  by (simp add: conv_bn_relu_def layer_shape_def one_input_def)

lemma shape_of_decoder_stage:
  "shape_of x = Some (h, w, c) \<Longrightarrow> shape_of s = Some (2 * h, 2 * w, c') \<Longrightarrow>
   shape_of (decoder_stage x s n m) = Some (2 * h, 2 * w, nat m)"
proof -
  assume x: "shape_of x = Some (h, w, c)" and s: "shape_of s = Some (2 * h, 2 * w, c')"
  have up: "shape_of (Apply (UpSampling2D (TupleV [IntV 2, IntV 2])) [x]) = Some (2 * h, 2 * w, c)"
    using x by (simp add: layer_shape_def upsampling_size_def one_input_def)
  have cat0: "shape_of (Apply Concatenate [u, s])
      = layer_shape Concatenate [shape_of u, shape_of s]" for u
    by simp
  have cat: "shape_of (Apply Concatenate [Apply (UpSampling2D (TupleV [IntV 2, IntV 2])) [x], s])
      = Some (2 * h, 2 * w, c + c')"
    unfolding cat0 up s by (simp add: layer_shape_def)
  from shape_of_conv_bn_relu [OF shape_of_conv_bn_relu [OF cat, of n], of m]
  show ?thesis by (simp add: decoder_stage_def Let_def)
qed

text \<open>
  C6.  The decoder of \<open>_create_model\<close> is exactly four stages
  (\<open>decoder_stage\<close>: upsampling by 2 x 2, concatenation with the skip connection, then
  twice convolution, batch normalization and ReLU with the stage's filter count).  The skip
  connections are taken in reverse depth order, \<open>block_6_expand_relu\<close>,
  \<open>block_3_expand_relu\<close>, \<open>block_1_expand_relu\<close>, \<open>input_image\<close>, with the filter
  counts 128, 64, 48, 32.  A 1 x 1 convolution to one channel and a sigmoid follow.  With
  the output sizes MobileNetV2 has for a 512 x 512 input (32, 64, 128, 256 at the four
  layers taken from it) the output has the shape 512 x 512 x 1.
\<close>

theorem decoder_structure:
  assumes "get_layer ls ''block_13_expand_relu'' = Inr l13"
    and "get_layer ls ''block_6_expand_relu'' = Inr l6"
    and "get_layer ls ''block_3_expand_relu'' = Inr l3"
    and "get_layer ls ''block_1_expand_relu'' = Inr l1"
    and "out_shape l13 = (32, 32, ca)" and "out_shape l6 = (64, 64, cb)"
    and "out_shape l3 = (128, 128, cc)" and "out_shape l1 = (256, 256, cd)"
  shows "\<exists>unet. create_model ls = Inr unet \<and>
           graph_output (net unet) =
               Apply (Activation ''sigmoid'')
                [Apply (Conv2D (IntV 1) (TupleV [IntV 1, IntV 1]) ''same'')
                  [decoder_stage
                    (decoder_stage
                      (decoder_stage
                        (decoder_stage (LayerOutput l13) (LayerOutput l6) 128 128)
                        (LayerOutput l3) 64 64)
                      (LayerOutput l1) 48 48)
                    (LayerOutput \<lparr>lname = ''input_image'', trainable = True,
                       out_shape = (IMG_WIDTH, IMG_HEIGHT, 3)\<rparr>) 32 32]] \<and>
           shape_of (graph_output (net unet)) = Some (512, 512, 1) \<and>
           decoder_stage x x_skip n n =
             Apply (Activation ''relu'')
              [Apply (BatchNormalization (99 / 100))
                [Apply (Conv2D (IntV n) (TupleV [IntV 3, IntV 3]) ''same'')
                  [Apply (Activation ''relu'')
                    [Apply (BatchNormalization (99 / 100))
                      [Apply (Conv2D (IntV n) (TupleV [IntV 3, IntV 3]) ''same'')
                        [Apply Concatenate
                          [Apply (UpSampling2D (TupleV [IntV 2, IntV 2])) [x], x_skip]]]]]]]"
proof -
  let ?inp = "\<lparr>lname = ''input_image'', trainable = True, out_shape = (IMG_WIDTH, IMG_HEIGHT, 3)\<rparr>"
  let ?s1 = "decoder_stage (LayerOutput l13) (LayerOutput l6) 128 128"
  let ?s2 = "decoder_stage ?s1 (LayerOutput l3) 64 64"
  let ?s3 = "decoder_stage ?s2 (LayerOutput l1) 48 48"
  let ?s4 = "decoder_stage ?s3 (LayerOutput ?inp) 32 32"
  have s1: "shape_of ?s1 = Some (2 * 32, 2 * 32, nat 128)"
    using assms(5,6) by (intro shape_of_decoder_stage) simp_all
  then have s1': "shape_of ?s1 = Some (64, 64, 128)" by simp
  have s2: "shape_of ?s2 = Some (2 * 64, 2 * 64, nat 64)"
    using s1' assms(7) by (intro shape_of_decoder_stage) simp_all
  then have s2': "shape_of ?s2 = Some (128, 128, 64)" by simp
  have s3: "shape_of ?s3 = Some (2 * 128, 2 * 128, nat 48)"
    using s2' assms(8) by (intro shape_of_decoder_stage) simp_all
  then have s3': "shape_of ?s3 = Some (256, 256, 48)" by simp
  have s4: "shape_of ?s4 = Some (2 * 256, 2 * 256, nat 32)"
    using s3' by (intro shape_of_decoder_stage) (simp_all add: IMG_WIDTH_def IMG_HEIGHT_def)
  then have s4': "shape_of ?s4 = Some (512, 512, 32)" by simp
  have out: "shape_of (Apply (Activation ''sigmoid'')
                [Apply (Conv2D (IntV 1) (TupleV [IntV 1, IntV 1]) ''same'') [?s4]])
             = Some (512, 512, 1)"
    using s4' by (simp add: layer_shape_def one_input_def)
  show ?thesis
    using create_model_eval [OF assms(1-4)] out
    by (simp add: decoder_stage_def [of x x_skip] conv_bn_relu_def Let_def)
qed

theorem decoder_structure_witness:
  "\<exists>unet. create_model MobileNetV2_example = Inr unet \<and>
       shape_of (graph_output (net unet)) = Some (512, 512, 1)"
  using decoder_structure [OF MobileNetV2_example_layers, where ca = 576 and cb = 192
      and cc = 144 and cd = 96 and x = "Apply Concatenate []" and x_skip = "Apply Concatenate []"
      and n = 1]
  by auto












text \<open>
  C7.  \<open>predict_on_learned_model\<close> and \<open>display_segmentation\<close> load the saved model
  without a compile configuration and attach the configuration \<open>_create_model\<close> compiles
  with: Nadam with learning rate 1e-4, the Dice loss, and the metrics Dice coefficient,
  recall, precision.  Prediction then yields one output per input image.
\<close>

theorem compile_config_reattached:
  assumes "create_model ls = Inr unet"
    and "saved ''generate_data/saved_models/u-net/'' = Some fwd"
  shows "\<exists>loaded p d.
           load_model_uncompiled saved ''generate_data/saved_models/u-net/'' = Inr loaded \<and>
           compiled loaded = None \<and>
           predict_on_learned_model_u_net saved = Inr p \<and>
           display_segmentation_u_net saved = Inr d \<and>
           compiled p = compiled unet \<and> compiled d = compiled unet \<and>
           compiled unet =
             Some \<lparr>optimizer = Nadam (1 / 10 ^ 4), loss = dice_loss,
                   metrics = [Custom (\<lambda>y_true y_pred. dice_coef y_true y_pred smooth_default),
                              Recall, Precision]\<rparr> \<and>
           predict_on_learned_model saved images = Inr (map fwd images) \<and>
           length (map fwd images) = length images \<and>
           display_segmentation saved images = Inr (map (\<lambda>i. [fwd i]) images)"
proof -
  have cfg: "compiled unet =
             Some \<lparr>optimizer = Nadam (1 / 10 ^ 4), loss = dice_loss,
                   metrics = [Custom (\<lambda>y_true y_pred. dice_coef y_true y_pred smooth_default),
                              Recall, Precision]\<rparr>"
    using assms(1)
    by (auto simp: create_model_def bind_def Let_def compile_def split: sum.splits)
  show ?thesis
    using assms(2) cfg
    by (simp add: load_model_uncompiled_def predict_on_learned_model_u_net_def
        display_segmentation_u_net_def predict_on_learned_model_def display_segmentation_def
        predict_def compile_def bind_def comp_def)
qed

theorem compile_config_reattached_witness:
  "\<exists>unet. create_model MobileNetV2_example = Inr unet \<and>
     predict_on_learned_model
       [''generate_data/saved_models/u-net/'' \<mapsto> Suc] [1, 2, 3] = Inr [2, 3, 4] \<and>
     map_option optimizer (compiled unet) = Some (Nadam (1 / 10 ^ 4))"
proof -
  from create_model_eval [OF MobileNetV2_example_layers]
  obtain unet where u: "create_model MobileNetV2_example = Inr unet" by blast
  have s: "[''generate_data/saved_models/u-net/'' \<mapsto> Suc] ''generate_data/saved_models/u-net/''
           = Some Suc"
    by simp
  from compile_config_reattached
         [where saved = "[''generate_data/saved_models/u-net/'' \<mapsto> Suc]" and fwd = Suc
            and images = "[1, 2, 3]", OF u s]
  show ?thesis using u by auto
qed

section \<open>Properties of the image conversion and of the folder-pair loader\<close>

lemma unit_interval: "0 \<le> (a::real) \<Longrightarrow> a \<le> 255 \<Longrightarrow> 0 \<le> a / 255 \<and> a / 255 \<le> 1"
  by simp

lemma uint8_unit_interval: "0 \<le> real (unat (w :: 8 word)) / 255 \<and> real (unat w) / 255 \<le> 1"
proof (rule unit_interval)
  show "0 \<le> real (unat w)" by (rule of_nat_0_le_iff)
  have "unat w < 2 ^ LENGTH(8)" by (rule unsigned_less)
  then have "unat w \<le> 255" by simp
  then have "real (unat w) \<le> real 255" by (rule iffD2 [OF of_nat_le_iff])
  then show "real (unat w) \<le> 255" by (simp only: of_nat_numeral)
qed

text \<open>
  C3.  Whatever the input image, every value of the output of \<open>_convert_image\<close> lies in
  the interval from 0 to 1; and with a \<open>resize_with_pad\<close> that returns \<open>target_height\<close>
  rows of \<open>target_width\<close> pixels, which is the contract of the framework's function, the
  output has 512 rows of 512 pixels.
\<close>

theorem convert_image_range_and_size:
  assumes "\<forall>img h w. length (resize_with_pad img h w) = h \<and>
             (\<forall>row \<in> set (resize_with_pad img h w). length row = w)"
  shows "length (convert_image resize_with_pad img) = 512 \<and>
         (\<forall>row \<in> set (convert_image resize_with_pad img). length row = 512 \<and>
            (\<forall>px \<in> set row. \<forall>v \<in> set px. 0 \<le> v \<and> v \<le> 1))"
proof (intro conjI ballI)
  show "length (convert_image resize_with_pad img) = 512"
    using assms by (simp add: convert_image_def IMG_WIDTH_def)
next
  fix row assume "row \<in> set (convert_image resize_with_pad img)"
  then obtain r where r: "r \<in> set (resize_with_pad img IMG_WIDTH IMG_HEIGHT)"
    and row: "row = map (map (\<lambda>v. real (unat (cast_uint8 v)) / 255)) r"
    by (auto simp: convert_image_def)
  from assms r have "length r = IMG_HEIGHT" by blast
  then show "length row = 512" by (simp add: row IMG_HEIGHT_def)
  fix px assume "px \<in> set row"
  then obtain p where px: "px = map (\<lambda>v. real (unat (cast_uint8 v)) / 255) p"
    by (auto simp: row)
  fix v assume "v \<in> set px"
  then obtain u where "v = real (unat (cast_uint8 u)) / 255" by (auto simp: px)
  then show "0 \<le> v" and "v \<le> 1" using uint8_unit_interval [of "cast_uint8 u"] by simp_all
qed

theorem convert_image_range_and_size_witness:
  "length (convert_image resize_black [[[12, 200, 255]]]) = 512 \<and>
   convert_image resize_unchanged [[[255, 51, 0]]] = [[[1, 1 / 5, 0]]]"
proof -
  have h: "\<forall>img h w. length (resize_black img h w) = h \<and>
             (\<forall>row \<in> set (resize_black img h w). length row = w)"
    by (simp add: resize_black_def)
  have e: "convert_image resize_unchanged [[[255, 51, 0]]] = [[[1, 1 / 5, 0]]]"
    by (simp add: convert_image_def resize_unchanged_def cast_uint8_def)
  from convert_image_range_and_size [OF h, of "[[[12, 200, 255]]]"] e
  show ?thesis by blast
qed

lemma load_files_readable:
  "\<forall>n \<in> set names. imread fs (dir @ n) = Some (img n) \<Longrightarrow>
   load_files fs prep dir names acc = Inr (acc @ map (\<lambda>n. prep (img n)) names)"
  by (induction names arbitrary: acc) (simp_all add: load_file_def)

lemma load_dirs_readable:
  assumes "\<forall>d \<in> set dirs. listdir fs (ip @ d @ ''/'') = Some (ni d) \<and>
                          listdir fs (tp @ d @ ''/'') = Some (nt d)"
    and "\<forall>d \<in> set dirs. (\<forall>n \<in> set (ni d). imread fs ((ip @ d @ ''/'') @ n) = Some (xi d n)) \<and>
                          (\<forall>n \<in> set (nt d). imread fs ((tp @ d @ ''/'') @ n) = Some (yi d n))"
  shows "load_dirs fs p q ip tp dirs xa ya =
           Inr (xa @ concat (map (\<lambda>d. map (\<lambda>n. p (xi d n)) (sort (ni d))) dirs),
                ya @ concat (map (\<lambda>d. map (\<lambda>n. q (yi d n)) (sort (nt d))) dirs))"
  using assms
proof (induction dirs arbitrary: xa ya)
  case Nil
  then show ?case by simp
next
  case (Cons d dirs)
  have li: "os_listdir fs (ip @ d @ ''/'') = Inr (ni d)"
    and lt: "os_listdir fs (tp @ d @ ''/'') = Inr (nt d)"
    using Cons.prems(1) by (simp_all add: os_listdir_def)
  have ri: "\<forall>n \<in> set (sort (ni d)). imread fs ((ip @ d @ ''/'') @ n) = Some (xi d n)"
    and rt: "\<forall>n \<in> set (sort (nt d)). imread fs ((tp @ d @ ''/'') @ n) = Some (yi d n)"
    using Cons.prems(2) by simp_all
  have fi: "load_files fs p (ip @ d @ ''/'') (sort (ni d)) xa
              = Inr (xa @ map (\<lambda>n. p (xi d n)) (sort (ni d)))"
    by (rule load_files_readable [OF ri])
  have ft: "load_files fs q (tp @ d @ ''/'') (sort (nt d)) ya
              = Inr (ya @ map (\<lambda>n. q (yi d n)) (sort (nt d)))"
    by (rule load_files_readable [OF rt])
  have rest: "load_dirs fs p q ip tp dirs (xa @ map (\<lambda>n. p (xi d n)) (sort (ni d)))
                (ya @ map (\<lambda>n. q (yi d n)) (sort (nt d)))
     = Inr ((xa @ map (\<lambda>n. p (xi d n)) (sort (ni d)))
              @ concat (map (\<lambda>d. map (\<lambda>n. p (xi d n)) (sort (ni d))) dirs),
            (ya @ map (\<lambda>n. q (yi d n)) (sort (nt d)))
              @ concat (map (\<lambda>d. map (\<lambda>n. q (yi d n)) (sort (nt d))) dirs))"
    using Cons.prems by (intro Cons.IH) simp_all
  have step: "load_dirs fs p q ip tp (d # dirs) xa ya =
      load_dirs fs p q ip tp dirs (xa @ map (\<lambda>n. p (xi d n)) (sort (ni d)))
                (ya @ map (\<lambda>n. q (yi d n)) (sort (nt d)))"
    by (simp add: Let_def li lt fi ft)
  show ?case unfolding step rest by simp
qed

lemma sort_same_names: "mset xs = mset ys \<Longrightarrow> sort xs = sort (ys :: string list)"
  by (rule properties_for_sort) simp_all

lemma concat_map_pairs:
  "map (\<lambda>(d, n). g d n) (concat (map (\<lambda>d. map (Pair d) (ks d)) dirs))
     = concat (map (\<lambda>d. map (g d) (ks d)) dirs)"
  by (induction dirs) simp_all


text \<open>
  C4 (amended).  When the folders exist and every listed file can be read,
  \<open>_load_kaggle_dataset\<close> returns, without any check, one entry of \<open>x_train\<close> per file
  of the image folders and one entry of \<open>y_train\<close> per file of the truth folders, each
  folder in sorted order of its names and the folders in the order of the listing of
  \<open>truth\<close>.  When every image folder has the names of its truth folder, the two lists
  are the images and the masks of one sequence of (folder, name) pairs.
\<close>

theorem load_kaggle_dataset_pairs:
  assumes "listdir fs (path @ ''truth'') = Some dirs"
    and "\<forall>d \<in> set dirs. listdir fs (path @ ''images/'' @ d @ ''/'') = Some (ni d) \<and>
                          listdir fs (path @ ''truth/'' @ d @ ''/'') = Some (nt d)"
    and "\<forall>d \<in> set dirs.
           (\<forall>n \<in> set (ni d). imread fs (path @ ''images/'' @ d @ ''/'' @ n) = Some (xi d n)) \<and>
           (\<forall>n \<in> set (nt d). imread fs (path @ ''truth/'' @ d @ ''/'' @ n) = Some (yi d n))"
  shows "(let x_train = concat (map (\<lambda>d. map (\<lambda>n. convert_image rs (xi d n)) (sort (ni d))) dirs);
              y_train = concat (map (\<lambda>d. map (\<lambda>n. gray (convert_image rs (yi d n))) (sort (nt d))) dirs);
              names = concat (map (\<lambda>d. map (Pair d) (sort (nt d))) dirs)
          in load_kaggle_dataset fs rs gray path = Inr (x_train, y_train) \<and>
             length x_train = sum_list (map (\<lambda>d. length (ni d)) dirs) \<and>
             length y_train = sum_list (map (\<lambda>d. length (nt d)) dirs) \<and>
             y_train = map (\<lambda>(d, n). gray (convert_image rs (yi d n))) names \<and>
             ((\<forall>d \<in> set dirs. mset (ni d) = mset (nt d)) \<longrightarrow>
                x_train = map (\<lambda>(d, n). convert_image rs (xi d n)) names))"
proof -
  let ?X = "concat (map (\<lambda>d. map (\<lambda>n. convert_image rs (xi d n)) (sort (ni d))) dirs)"
  let ?Y = "concat (map (\<lambda>d. map (\<lambda>n. gray (convert_image rs (yi d n))) (sort (nt d))) dirs)"
  have a: "\<forall>d \<in> set dirs. listdir fs ((path @ ''images/'') @ d @ ''/'') = Some (ni d) \<and>
                          listdir fs ((path @ ''truth/'') @ d @ ''/'') = Some (nt d)"
    using assms(2) by simp
  have b: "\<forall>d \<in> set dirs.
           (\<forall>n \<in> set (ni d). imread fs (((path @ ''images/'') @ d @ ''/'') @ n) = Some (xi d n)) \<and>
           (\<forall>n \<in> set (nt d). imread fs (((path @ ''truth/'') @ d @ ''/'') @ n) = Some (yi d n))"
    using assms(3) by simp
  have run: "load_kaggle_dataset fs rs gray path = Inr (?X, ?Y)"
    using load_dirs_readable [OF a b, where p = "convert_image rs" and xa = "[]"
        and q = "\<lambda>mask. gray (convert_image rs mask)" and ya = "[]"] assms(1)
    by (simp add: load_kaggle_dataset_def Let_def bind_def os_listdir_def)
  have lx: "length ?X = sum_list (map (\<lambda>d. length (ni d)) dirs)"
    by (simp add: length_concat comp_def)
  have ly: "length ?Y = sum_list (map (\<lambda>d. length (nt d)) dirs)"
    by (simp add: length_concat comp_def)
  have ypairs: "?Y = map (\<lambda>(d, n). gray (convert_image rs (yi d n)))
                          (concat (map (\<lambda>d. map (Pair d) (sort (nt d))) dirs))"
    by (rule concat_map_pairs [where g = "\<lambda>d n. gray (convert_image rs (yi d n))"
          and ks = "\<lambda>d. sort (nt d)", symmetric])
  have aligned: "?X = map (\<lambda>(d, n). convert_image rs (xi d n))
                          (concat (map (\<lambda>d. map (Pair d) (sort (nt d))) dirs))"
    if same: "\<forall>d \<in> set dirs. mset (ni d) = mset (nt d)"
  proof -
    have seq: "sort (ni d) = sort (nt d)" if "d \<in> set dirs" for d
      using same that by (intro sort_same_names) blast
    have "map (\<lambda>d. map (\<lambda>n. convert_image rs (xi d n)) (sort (ni d))) dirs
        = map (\<lambda>d. map (\<lambda>n. convert_image rs (xi d n)) (sort (nt d))) dirs"
      by (rule map_cong [OF refl]) (simp only: seq)
    then have "?X = concat (map (\<lambda>d. map (\<lambda>n. convert_image rs (xi d n)) (sort (nt d))) dirs)"
      by (rule arg_cong)
    also have "\<dots> = map (\<lambda>(d, n). convert_image rs (xi d n))
                          (concat (map (\<lambda>d. map (Pair d) (sort (nt d))) dirs))"
      by (rule concat_map_pairs [where g = "\<lambda>d n. convert_image rs (xi d n)"
          and ks = "\<lambda>d. sort (nt d)", symmetric])
    finally show ?thesis .
  qed
  show ?thesis
    unfolding Let_def
  proof (intro conjI impI)
    show "load_kaggle_dataset fs rs gray path = Inr (?X, ?Y)" by (rule run)
    show "length ?X = sum_list (map (\<lambda>d. length (ni d)) dirs)" by (rule lx)
    show "length ?Y = sum_list (map (\<lambda>d. length (nt d)) dirs)" by (rule ly)
    show "?Y = map (\<lambda>(d, n). gray (convert_image rs (yi d n)))
                          (concat (map (\<lambda>d. map (Pair d) (sort (nt d))) dirs))"
      by (rule ypairs)
    assume "\<forall>d \<in> set dirs. mset (ni d) = mset (nt d)"
    then show "?X = map (\<lambda>(d, n). convert_image rs (xi d n))
                          (concat (map (\<lambda>d. map (Pair d) (sort (nt d))) dirs))"
      by (rule aligned)
  qed
qed

lemma name_order: "''1.png'' \<le> ''2.png''" "\<not> ''2.png'' \<le> ''1.png''"
  by (simp_all add: less_eq_char_def)

lemma sort_two_names: "sort [''2.png'', ''1.png''] = [''1.png'', ''2.png'']"
  "sort [''1.png'', ''2.png''] = [''1.png'', ''2.png'']" "sort [''1.png''] = [''1.png'']"
  by (simp_all add: name_order)

lemma convert_examples:
  "convert_image resize_unchanged [[[255]]] = [[[1]]]"
  "convert_image resize_unchanged [[[51]]] = [[[1 / 5]]]"
  "convert_image resize_unchanged [[[0]]] = [[[0]]]"
  by (simp_all add: convert_image_def resize_unchanged_def cast_uint8_def)

theorem load_kaggle_dataset_pairs_witness:
  "load_kaggle_dataset fs_matching resize_unchanged id ''data/''
     = Inr ([[[[1]]], [[[1 / 5]]]], [[[[1]]], [[[0]]]])"
proof -
  let ?ni = "\<lambda>d::string. [''2.png'', ''1.png'']"
  let ?nt = "\<lambda>d::string. [''1.png'', ''2.png'']"
  let ?xi = "\<lambda>(d::string) n. if n = ''1.png'' then [[[255]]] else [[[51::real]]]"
  let ?yi = "\<lambda>(d::string) n. if n = ''1.png'' then [[[255]]] else [[[0::real]]]"
  have h1: "listdir fs_matching (''data/'' @ ''truth'') = Some [''a'']"
    by (simp add: fs_matching_def)
  have h2: "\<forall>d \<in> set [''a'']. listdir fs_matching (''data/'' @ ''images/'' @ d @ ''/'') = Some (?ni d) \<and>
                          listdir fs_matching (''data/'' @ ''truth/'' @ d @ ''/'') = Some (?nt d)"
    by (simp add: fs_matching_def)
  have h3: "\<forall>d \<in> set [''a''].
           (\<forall>n \<in> set (?ni d). imread fs_matching (''data/'' @ ''images/'' @ d @ ''/'' @ n) = Some (?xi d n)) \<and>
           (\<forall>n \<in> set (?nt d). imread fs_matching (''data/'' @ ''truth/'' @ d @ ''/'' @ n) = Some (?yi d n))"
    by (simp add: fs_matching_def)
  from load_kaggle_dataset_pairs [OF h1 h2 h3, where rs = resize_unchanged and gray = id]
  show ?thesis by (simp add: sort_two_names convert_examples Let_def)
qed

text \<open>
  The claim C4 as stated (an error on filename sets of different lengths) fails: with two
  images and one mask in folder \<open>a\<close> the loader returns two images and one mask.
\<close>

theorem load_kaggle_dataset_mismatch_counterexample:
  "load_kaggle_dataset fs_mismatch resize_unchanged id ''data/''
     = Inr ([[[[1]]], [[[1 / 5]]]], [[[[1]]]])"
proof -
  show ?thesis
    by (simp add: load_kaggle_dataset_def Let_def bind_def os_listdir_def fs_mismatch_def
        sort_two_names load_file_def convert_examples)
qed

end
